theory Spec2Isabelle
  imports Complex_Main "HOL-Library.Log_Nat" "HOL-Library.Monad_Syntax"
begin

section \<open>The point details popup of the statistics charts\<close>

text \<open>
  A shallow embedding of \<^verbatim>\<open>Telegram/SourceFiles/statistics/point_details_widget.cpp\<close>.

  Conventions of the embedding:
  \<^item> \<^verbatim>\<open>float64\<close> is the type \<open>float64\<close> below: a finite double is held as its exact value,
    and every arithmetic operation returns the exact result rounded to the nearest double,
    ties to the even mantissa, as IEEE 754 binary64 arithmetic does.
  \<^item> A C++ \<^verbatim>\<open>int\<close> is held as an \<^typ>\<open>int\<close>. An \<^verbatim>\<open>int\<close> addition written in the source
    whose result leaves the 32-bit range is undefined behaviour; so is the conversion of a
    double to an integer type that cannot hold its truncated value. The model returns
    \<open>None\<close> there, as it does for a \<^verbatim>\<open>std::vector\<close> read out of range.
  \<^item> The arithmetic inside the toolkit (the rectangles and margins of Qt and of
    \<^verbatim>\<open>ui/rect.h\<close>) is taken over the integers.
  \<^item> Strings produced by the toolkit's locale (\<^verbatim>\<open>QLocale::toString\<close>,
    \<^verbatim>\<open>QString("%L1").arg\<close>) are kept symbolic: the constructor of \<open>QString\<close> records
    which formatting call produced the text and from which arguments.
  \<^item> The values of a series (\<^verbatim>\<open>dataLine.y\<close>) are integral, as the chart data declares them.
  \<^item> \<^verbatim>\<open>update()\<close> only schedules a repaint and \<^verbatim>\<open>paintEvent\<close> only draws; neither
    changes a field, and neither is modelled.
\<close>

subsection \<open>Machine integers\<close>

definition int_range :: "int \<Rightarrow> bool" where
  "int_range n = (- 2147483648 \<le> n \<and> n \<le> 2147483647)"

definition int64_range :: "int \<Rightarrow> bool" where
  "int64_range n = (- 9223372036854775808 \<le> n \<and> n \<le> 9223372036854775807)"

text \<open>\<^verbatim>\<open>a + b\<close> on two \<^verbatim>\<open>int\<close>s.\<close>

definition add_int :: "int \<Rightarrow> int \<Rightarrow> int option" where
  "add_int a b = (if int_range (a + b) then Some (a + b) else None)"

subsection \<open>Doubles\<close>

text \<open>
  A double is a finite value, an infinity or a NaN. The two zeros are one value and so are
  all NaNs: no operation the widget uses tells them apart. A value \<open>Finite x\<close> is a double
  of the source when \<open>x\<close> is representable, that is when rounding leaves it unchanged
  (\<open>is_float64\<close> below); the operations return such values only.
\<close>

datatype float64 = Finite real | PInf | NInf | NaN

text \<open>The binade of a positive real: the \<open>k\<close> with \<open>2\<^sup>k \<le> x < 2\<^sup>k\<^sup>+\<^sup>1\<close>.\<close>

definition binade :: "real \<Rightarrow> int" where
  "binade x = (if 1 \<le> x then bitlen \<lfloor>x\<rfloor> - 1 else - bitlen (\<lceil>1 / x\<rceil> - 1))"

text \<open>Rounding to the nearest integer, a tie to the even one.\<close>

definition round_half_even :: "real \<Rightarrow> int" where
  "round_half_even q =
     (let f = \<lfloor>q\<rfloor>; r = q - of_int f in
      if r < 1 / 2 then f else if 1 / 2 < r then f + 1 else if even f then f else f + 1)"

definition float64_overflow :: real where
  "float64_overflow = 2 ^ 1024"

text \<open>
  The exponent of the unit in the last place at \<open>x\<close>: 53 significant bits, and never below
  the exponent of the subnormal numbers.
\<close>

definition ulp_exp :: "real \<Rightarrow> int" where
  "ulp_exp x = max (binade \<bar>x\<bar> - 52) (- 1074)"

text \<open>
  Round to nearest, ties to even: the mantissa is rounded at the exponent of the unit in
  the last place, and a result of magnitude \<open>2\<^sup>1\<^sup>0\<^sup>2\<^sup>4\<close> or more is an infinity.
\<close>

definition round64 :: "real \<Rightarrow> float64" where
  "round64 x =
     (if x = 0 then Finite 0
      else
        (let e = ulp_exp x;
             m = round_half_even (x / 2 powi e);
             y = of_int m * 2 powi e
         in if float64_overflow \<le> \<bar>y\<bar> then (if 0 < x then PInf else NInf) else Finite y))"

fun is_float64 :: "float64 \<Rightarrow> bool" where
  "is_float64 (Finite x) = (round64 x = Finite x)"
| "is_float64 _ = True"

fun fadd :: "float64 \<Rightarrow> float64 \<Rightarrow> float64" where
  "fadd NaN _ = NaN"
| "fadd _ NaN = NaN"
| "fadd PInf NInf = NaN"
| "fadd NInf PInf = NaN"
| "fadd PInf _ = PInf"
| "fadd _ PInf = PInf"
| "fadd NInf _ = NInf"
| "fadd _ NInf = NInf"
| "fadd (Finite x) (Finite y) = round64 (x + y)"

fun fmul :: "float64 \<Rightarrow> float64 \<Rightarrow> float64" where
  "fmul NaN _ = NaN"
| "fmul _ NaN = NaN"
| "fmul (Finite x) (Finite y) = round64 (x * y)"
| "fmul (Finite x) PInf = (if x = 0 then NaN else if 0 < x then PInf else NInf)"
| "fmul (Finite x) NInf = (if x = 0 then NaN else if 0 < x then NInf else PInf)"
| "fmul PInf (Finite y) = (if y = 0 then NaN else if 0 < y then PInf else NInf)"
| "fmul NInf (Finite y) = (if y = 0 then NaN else if 0 < y then NInf else PInf)"
| "fmul PInf PInf = PInf"
| "fmul NInf NInf = PInf"
| "fmul PInf NInf = NInf"
| "fmul NInf PInf = NInf"

text \<open>
  \<^verbatim>\<open>x / 1000\<close> for a double \<open>x\<close>: the \<^verbatim>\<open>int\<close> 1000 converts to the double 1000, a positive
  finite divisor.
\<close>

fun fdiv_1000 :: "float64 \<Rightarrow> float64" where
  "fdiv_1000 (Finite x) = round64 (x / 1000)"
| "fdiv_1000 PInf = PInf"
| "fdiv_1000 NInf = NInf"
| "fdiv_1000 NaN = NaN"

text \<open>\<^verbatim>\<open>std::ceil\<close>.\<close>

fun fceil :: "float64 \<Rightarrow> float64" where
  "fceil (Finite x) = Finite (of_int \<lceil>x\<rceil>)"
| "fceil PInf = PInf"
| "fceil NInf = NInf"
| "fceil NaN = NaN"

text \<open>The conversion of an \<^verbatim>\<open>int\<close> to a double.\<close>

definition double_of_int :: "int \<Rightarrow> float64" where
  "double_of_int n = round64 (of_int n)"

text \<open>
  The conversion of a double to \<^verbatim>\<open>int\<close> and to \<^verbatim>\<open>qint64\<close>: the value is truncated towards
  zero; the behaviour is undefined when the destination cannot hold it.
\<close>

definition trunc_toward_zero :: "real \<Rightarrow> int" where
  "trunc_toward_zero x = (if 0 \<le> x then \<lfloor>x\<rfloor> else \<lceil>x\<rceil>)"

fun double_to_int :: "float64 \<Rightarrow> int option" where
  "double_to_int (Finite x) = (if int_range (trunc_toward_zero x) then Some (trunc_toward_zero x) else None)"
| "double_to_int _ = None"

fun double_to_int64 :: "float64 \<Rightarrow> int option" where
  "double_to_int64 (Finite x) = (if int64_range (trunc_toward_zero x) then Some (trunc_toward_zero x) else None)"
| "double_to_int64 _ = None"

subsection \<open>Toolkit values\<close>

datatype QString =
    QStr string
  | LocaleDateTime int string   \<comment> \<open>\<^verbatim>\<open>QLocale().toString(dateTime, format)\<close>, seconds since epoch\<close>
  | LocaleDate int string       \<comment> \<open>\<^verbatim>\<open>QLocale().toString(dateTime.date(), format)\<close>\<close>
  | LocaleInt int               \<comment> \<open>\<^verbatim>\<open>QString("%L1").arg(n)\<close> for an integral value\<close>
  | LocaleDouble float64        \<comment> \<open>\<^verbatim>\<open>QString("%L1").arg(d)\<close> for a \<^verbatim>\<open>float64\<close>\<close>

record TextStyle =
  font_height :: int

datatype TextString = EmptyText | Text TextStyle QString

record QMargins =
  m_left :: int
  m_top :: int
  m_right :: int
  m_bottom :: int

record QRect =
  r_x :: int
  r_y :: int
  r_width :: int
  r_height :: int

record QSize =
  s_width :: int
  s_height :: int

definition QSize_isNull :: "QSize \<Rightarrow> bool" where
  "QSize_isNull s = (s_width s = 0 \<and> s_height s = 0)"

text \<open>\<^verbatim>\<open>Size(int w)\<close> and \<^verbatim>\<open>Rect(QSize)\<close> of \<^verbatim>\<open>ui/rect.h\<close>: a square size, a rectangle at the origin.\<close>

definition Size :: "int \<Rightarrow> QSize" where
  "Size w = \<lparr>s_width = w, s_height = w\<rparr>"

definition Rect :: "QSize \<Rightarrow> QRect" where
  "Rect s = \<lparr>r_x = 0, r_y = 0, r_width = s_width s, r_height = s_height s\<rparr>"

text \<open>\<^verbatim>\<open>QRect - QMargins\<close> is \<^verbatim>\<open>QRect::marginsRemoved\<close>.\<close>

definition marginsRemoved :: "QRect \<Rightarrow> QMargins \<Rightarrow> QRect" where
  "marginsRemoved r m =
     \<lparr>r_x = r_x r + m_left m, r_y = r_y r + m_top m,
      r_width = r_width r - m_left m - m_right m,
      r_height = r_height r - m_top m - m_bottom m\<rparr>"

text \<open>\<^verbatim>\<open>rect::m::sum::h\<close>: the horizontal sum of margins.\<close>

definition m_sum_h :: "QMargins \<Rightarrow> int" where
  "m_sum_h m = m_left m + m_right m"

subsection \<open>Chart data\<close>

text \<open>The fields of \<^verbatim>\<open>Data::StatisticalChart\<close> and of its lines that the widget reads.\<close>

record DataLine =
  dl_id :: int
  dl_name :: string
  dl_y :: "int list"
  dl_color :: nat

record StatisticalChart =
  chart_x :: "float64 list"
  chart_lines :: "DataLine list"

text \<open>\<^verbatim>\<open>v[i]\<close> on a \<^verbatim>\<open>std::vector\<close> with an \<^verbatim>\<open>int\<close> index.\<close>

definition vector_at :: "'a list \<Rightarrow> int \<Rightarrow> 'a option" where
  "vector_at v i = (if 0 \<le> i \<and> nat i < length v then Some (v ! nat i) else None)"

subsection \<open>Parameters: style constants, text measuring, member initialisers\<close>

text \<open>
  The style constants (\<^verbatim>\<open>styles/style_statistics.h\<close>, \<^verbatim>\<open>styles/style_layers.h\<close>), the
  toolkit's text measuring, the size of a freshly created widget and the default member
  initialisers of the widget's header file are not part of the source file; they are
  parameters of the model.
\<close>

record Env =
  statisticsDetailsPopupStyle :: TextStyle
  semiboldTextStyle :: TextStyle
  statisticsDetailsPopupMargins :: QMargins
  statisticsDetailsPopupPadding :: QMargins
  statisticsDetailsPopupMidLineSpace :: int
  textMaxWidth :: "TextStyle \<Rightarrow> QString \<Rightarrow> int"
  initialSize :: QSize
  initial_xIndex :: int
  initial_alpha :: float64
  initial_line_alpha :: float64

subsection \<open>FormatTimestamp\<close>

text \<open>
  \<^verbatim>\<open>QDateTime::fromSecsSinceEpoch(timestamp / 1000)\<close>: the double quotient converts to the
  \<^verbatim>\<open>qint64\<close> parameter; Qt leaves the result undefined for a count of seconds whose
  milliseconds do not fit a \<^verbatim>\<open>qint64\<close>. A date-time is held as its seconds since the epoch.
\<close>

definition QDateTime_fromSecsSinceEpoch :: "int \<Rightarrow> int option" where
  "QDateTime_fromSecsSinceEpoch secs = (if int64_range (secs * 1000) then Some secs else None)"

definition secsFromTimestamp :: "float64 \<Rightarrow> int option" where
  "secsFromTimestamp timestamp =
     (case double_to_int64 (fdiv_1000 timestamp) of
        None \<Rightarrow> None
      | Some secs \<Rightarrow> QDateTime_fromSecsSinceEpoch secs)"

text \<open>\<^verbatim>\<open>dateTime.toUTC().time()\<close>: milliseconds since the start of the UTC day.\<close>

definition utcTime_msecs :: "int \<Rightarrow> int" where
  "utcTime_msecs secs = (secs * 1000) mod 86400000"

definition QTime_hour :: "int \<Rightarrow> int" where
  "QTime_hour mds = mds div 3600000"

definition QTime_minute :: "int \<Rightarrow> int" where
  "QTime_minute mds = (mds mod 3600000) div 60000"

definition FormatTimestamp :: "float64 \<Rightarrow> string \<Rightarrow> string \<Rightarrow> QString option" where
  "FormatTimestamp timestamp longFormat shortFormat =
     (case secsFromTimestamp timestamp of
        None \<Rightarrow> None
      | Some dateTime \<Rightarrow>
          Some (if QTime_hour (utcTime_msecs dateTime) \<noteq> 0
                   \<or> QTime_minute (utcTime_msecs dateTime) \<noteq> 0
                then LocaleDateTime dateTime longFormat
                else LocaleDate dateTime shortFormat))"

subsection \<open>Widget state\<close>

record Line =
  line_id :: int
  line_name :: TextString
  line_value :: TextString
  line_valueColor :: nat
  line_alpha :: float64

record Widget =
  w_zoomEnabled :: bool
  w_chartData :: StatisticalChart
  w_textStyle :: TextStyle
  w_headerStyle :: TextStyle
  w_longFormat :: string
  w_shortFormat :: string
  w_header :: TextString
  w_lines :: "Line list"
  w_xIndex :: int
  w_alpha :: float64
  w_innerRect :: QRect
  w_textRect :: QRect
  w_calculatedWidth :: int                 \<comment> \<open>captured by the size subscription\<close>
  w_size :: QSize                           \<comment> \<open>\<^verbatim>\<open>width()\<close>, \<^verbatim>\<open>height()\<close>\<close>
  w_transparentForMouseEvents :: bool       \<comment> \<open>\<^verbatim>\<open>Qt::WA_TransparentForMouseEvents\<close>\<close>

text \<open>The subscriber of \<^verbatim>\<open>sizeValue()\<close> installed by the constructor.\<close>

definition onSizeValue :: "Env \<Rightarrow> Widget \<Rightarrow> QSize \<Rightarrow> Widget" where
  "onSizeValue env w s =
     (let fullRect = (if QSize_isNull s then Rect (Size (w_calculatedWidth w)) else Rect s);
          innerRect = marginsRemoved fullRect (statisticsDetailsPopupPadding env)
      in w\<lparr>w_innerRect := innerRect,
            w_textRect := marginsRemoved innerRect (statisticsDetailsPopupMargins env)\<rparr>)"

text \<open>
  \<^verbatim>\<open>resize(w, h)\<close>: the new size is stored and, when it differs from the old one, the
  size subscriber runs. (The clamping of Qt to the minimum and maximum size of the widget
  is not modelled.)
\<close>

definition resize :: "Env \<Rightarrow> Widget \<Rightarrow> int \<Rightarrow> int \<Rightarrow> Widget" where
  "resize env w width height =
     (let s = \<lparr>s_width = width, s_height = height\<rparr> in
      if s = w_size w then w else onSizeValue env (w\<lparr>w_size := s\<rparr>) s)"

subsection \<open>lineYAt and resizeHeight\<close>

text \<open>
  The loop of \<^verbatim>\<open>lineYAt\<close>: \<open>i\<close> is the loop counter, \<open>linesHeight\<close> the accumulator, a
  double. Each round adds two \<^verbatim>\<open>int\<close>s, converts the sum to a double, multiplies it by the
  alpha and adds the product to the accumulator.
\<close>

function lineYAt_loop :: "Env \<Rightarrow> Widget \<Rightarrow> int \<Rightarrow> int \<Rightarrow> float64 \<Rightarrow> float64 option" where
  "lineYAt_loop env w index i linesHeight =
     (if i < index then
        (let alpha = (if i \<ge> int (length (w_lines w)) then Finite 1
                      else line_alpha (w_lines w ! nat i))
         in case add_int (font_height (w_textStyle w)) (statisticsDetailsPopupMidLineSpace env) of
              None \<Rightarrow> None
            | Some lineHeight \<Rightarrow>
                lineYAt_loop env w index (i + 1)
                  (fadd linesHeight (fmul alpha (double_of_int lineHeight))))
      else Some linesHeight)"
  by pat_completeness auto
termination
  by (relation "measure (\<lambda>(env, w, index, i, linesHeight). nat (index - i))") auto

declare lineYAt_loop.simps [simp del]

text \<open>
  The return expression adds three \<^verbatim>\<open>int\<close>s, converts the sum to a double, adds the
  rounded-up height of the lines, and converts the double to the \<^verbatim>\<open>int\<close> result.
\<close>

definition lineYAt :: "Env \<Rightarrow> Widget \<Rightarrow> int \<Rightarrow> int option" where
  "lineYAt env w index =
     (case lineYAt_loop env w index 0 (Finite 0) of
        None \<Rightarrow> None
      | Some linesHeight \<Rightarrow>
          (case add_int (r_y (w_textRect w)) (font_height (w_headerStyle w)) of
             None \<Rightarrow> None
           | Some a \<Rightarrow>
               (case add_int a (m_bottom (statisticsDetailsPopupMargins env)) of
                  None \<Rightarrow> None
                | Some b \<Rightarrow> double_to_int (fadd (double_of_int b) (fceil linesHeight)))))"

definition resizeHeight :: "Env \<Rightarrow> Widget \<Rightarrow> Widget option" where
  "resizeHeight env w =
     (case lineYAt env w (int (length (chart_lines (w_chartData w)))) of
        None \<Rightarrow> None
      | Some y \<Rightarrow>
          (case add_int y (m_bottom (statisticsDetailsPopupMargins env)) of
             None \<Rightarrow> None
           | Some height \<Rightarrow> Some (resize env w (s_width (w_size w)) height)))"

subsection \<open>The setters\<close>

fun setLineAlpha_loop :: "Line list \<Rightarrow> int \<Rightarrow> float64 \<Rightarrow> Line list" where
  "setLineAlpha_loop [] lineId alpha = []"
| "setLineAlpha_loop (line # rest) lineId alpha =
     (if line_id line = lineId then line\<lparr>line_alpha := alpha\<rparr> else line)
     # setLineAlpha_loop rest lineId alpha"

definition setLineAlpha :: "Env \<Rightarrow> Widget \<Rightarrow> int \<Rightarrow> float64 \<Rightarrow> Widget option" where
  "setLineAlpha env w lineId alpha =
     resizeHeight env (w\<lparr>w_lines := setLineAlpha_loop (w_lines w) lineId alpha\<rparr>)"

definition setAlpha :: "Widget \<Rightarrow> float64 \<Rightarrow> Widget" where
  "setAlpha w alpha = w\<lparr>w_alpha := alpha\<rparr>"

text \<open>
  The loop of \<^verbatim>\<open>setXIndex\<close> over the chart's lines; the accumulator is the list built so
  far (\<^verbatim>\<open>_lines\<close>, cleared before the loop) and \<^verbatim>\<open>hasPositiveValues\<close>.
\<close>

fun setXIndex_loop ::
  "Env \<Rightarrow> TextStyle \<Rightarrow> int \<Rightarrow> DataLine list \<Rightarrow> Line list \<times> bool \<Rightarrow> (Line list \<times> bool) option" where
  "setXIndex_loop env textStyle xIndex [] acc = Some acc"
| "setXIndex_loop env textStyle xIndex (dataLine # rest) (lines, hasPositiveValues) =
     (case vector_at (dl_y dataLine) xIndex of
        None \<Rightarrow> None
      | Some v \<Rightarrow>
          (let textLine = \<lparr>line_id = dl_id dataLine,
                           line_name = Text textStyle (QStr (dl_name dataLine)),
                           line_value = Text textStyle (LocaleInt v),
                           line_valueColor = dl_color dataLine,
                           line_alpha = initial_line_alpha env\<rparr>
           in setXIndex_loop env textStyle xIndex rest
                (lines @ [textLine], hasPositiveValues \<or> v > 0)))"

definition setXIndex :: "Env \<Rightarrow> Widget \<Rightarrow> int \<Rightarrow> Widget option" where
  "setXIndex env w xIndex =
     (let w1 = w\<lparr>w_xIndex := xIndex\<rparr> in
      if xIndex < 0 then Some w1
      else
        (case vector_at (chart_x (w_chartData w1)) xIndex of
           None \<Rightarrow> None
         | Some timestamp \<Rightarrow>
             (case FormatTimestamp timestamp (w_longFormat w1) (w_shortFormat w1) of
                None \<Rightarrow> None
              | Some headerText \<Rightarrow>
                  (let w2 = w1\<lparr>w_header := Text (w_headerStyle w1) headerText\<rparr>
                   in case setXIndex_loop env (w_textStyle w2) xIndex
                             (chart_lines (w_chartData w2)) ([], False) of
                        None \<Rightarrow> None
                      | Some (lines, hasPositiveValues) \<Rightarrow>
                          (let clickable = (w_zoomEnabled w2 \<and> hasPositiveValues)
                           in Some (w2\<lparr>w_lines := lines,
                                       w_transparentForMouseEvents := \<not> clickable\<rparr>))))))"

definition xIndex :: "Widget \<Rightarrow> int" where
  "xIndex w = w_xIndex w"

subsection \<open>The constructor\<close>

text \<open>
  The width computed by the constructor's lambda. \<^verbatim>\<open>_chartData.x.front()\<close> on an empty
  vector is undefined behaviour: \<open>None\<close>.
\<close>

fun maxNameTextWidth_loop :: "Env \<Rightarrow> TextStyle \<Rightarrow> DataLine list \<Rightarrow> int \<Rightarrow> int" where
  "maxNameTextWidth_loop env textStyle [] maxNameTextWidth = maxNameTextWidth"
| "maxNameTextWidth_loop env textStyle (dataLine # rest) maxNameTextWidth =
     maxNameTextWidth_loop env textStyle rest
       (max (textMaxWidth env textStyle (QStr (dl_name dataLine))) maxNameTextWidth)"

definition calculatedWidth :: "Env \<Rightarrow> Widget \<Rightarrow> float64 \<Rightarrow> int option" where
  "calculatedWidth env w maxAbsoluteValue =
     (let maxValueTextWidth = textMaxWidth env (w_textStyle w) (LocaleDouble maxAbsoluteValue);
          maxNameTextWidth =
            maxNameTextWidth_loop env (w_textStyle w) (chart_lines (w_chartData w)) 0
      in case chart_x (w_chartData w) of
           [] \<Rightarrow> None
         | front # _ \<Rightarrow>
             do {
               headerText \<leftarrow> FormatTimestamp front (w_longFormat w) (w_shortFormat w);
               headerWidth \<leftarrow> add_int (textMaxWidth env (w_headerStyle w) headerText)
                                (m_left (statisticsDetailsPopupPadding env));
               a \<leftarrow> add_int maxValueTextWidth (m_sum_h (statisticsDetailsPopupMargins env));
               b \<leftarrow> add_int a (m_sum_h (statisticsDetailsPopupPadding env));
               c \<leftarrow> add_int b (m_left (statisticsDetailsPopupPadding env));
               add_int c (max headerWidth maxNameTextWidth)
             })"

text \<open>
  The members after the initialiser list: the header text and the line list are empty,
  the rectangles are default \<^verbatim>\<open>QRect\<close>s, the attribute is not set.
\<close>

definition initialMembers :: "Env \<Rightarrow> StatisticalChart \<Rightarrow> bool \<Rightarrow> Widget" where
  "initialMembers env chartData zoomEnabled =
     \<lparr>w_zoomEnabled = zoomEnabled,
      w_chartData = chartData,
      w_textStyle = statisticsDetailsPopupStyle env,
      w_headerStyle = semiboldTextStyle env,
      w_longFormat = ''ddd, MMM d hh:mm'',
      w_shortFormat = ''ddd, MMM d'',
      w_header = EmptyText,
      w_lines = [],
      w_xIndex = initial_xIndex env,
      w_alpha = initial_alpha env,
      w_innerRect = \<lparr>r_x = 0, r_y = 0, r_width = 0, r_height = 0\<rparr>,
      w_textRect = \<lparr>r_x = 0, r_y = 0, r_width = 0, r_height = 0\<rparr>,
      w_calculatedWidth = 0,
      w_size = initialSize env,
      w_transparentForMouseEvents = False\<rparr>"

text \<open>
  The constructor body: the width is computed, the size subscriber is installed (a
  \<^verbatim>\<open>sizeValue()\<close> producer delivers the current size at once), then the widget is resized
  to the computed width and to the height of its lines.
\<close>

definition PointDetailsWidget ::
  "Env \<Rightarrow> StatisticalChart \<Rightarrow> float64 \<Rightarrow> bool \<Rightarrow> Widget option" where
  "PointDetailsWidget env chartData maxAbsoluteValue zoomEnabled =
     (let w0 = initialMembers env chartData zoomEnabled in
      case calculatedWidth env w0 maxAbsoluteValue of
        None \<Rightarrow> None
      | Some cw \<Rightarrow>
          (let w1 = onSizeValue env (w0\<lparr>w_calculatedWidth := cw\<rparr>) (w_size w0);
               w2 = resize env w1 cw (s_height (w_size w1))
           in resizeHeight env w2))"

subsection \<open>Reachable widget states\<close>

text \<open>
  A widget state is reachable when the constructor returns it, or a public operation of the
  widget (a setter, or a resize from outside) leads to it from a reachable state.
\<close>

inductive reachable :: "Env \<Rightarrow> Widget \<Rightarrow> bool" for env :: Env where
  constructed:
    "PointDetailsWidget env chartData maxAbsoluteValue zoomEnabled = Some w \<Longrightarrow> reachable env w"
| after_setXIndex:
    "reachable env w \<Longrightarrow> setXIndex env w i = Some w' \<Longrightarrow> reachable env w'"
| after_setLineAlpha:
    "reachable env w \<Longrightarrow> setLineAlpha env w lineId alpha = Some w' \<Longrightarrow> reachable env w'"
| after_setAlpha:
    "reachable env w \<Longrightarrow> reachable env (setAlpha w alpha)"
| after_resize:
    "reachable env w \<Longrightarrow> reachable env (resize env w width height)"

subsection \<open>Notions used in the statements\<close>

text \<open>
  An index is valid for the chart data when every vector read at it is in range and the
  timestamp at it converts to a date-time: then no step of \<^verbatim>\<open>setXIndex\<close> is undefined.
\<close>

definition validXIndex :: "StatisticalChart \<Rightarrow> int \<Rightarrow> bool" where
  "validXIndex chartData i =
     (0 \<le> i \<and> nat i < length (chart_x chartData)
      \<and> secsFromTimestamp (chart_x chartData ! nat i) \<noteq> None
      \<and> list_all (\<lambda>dataLine. nat i < length (dl_y dataLine)) (chart_lines chartData))"

text \<open>Which of the two formatting branches produced a header text.\<close>

fun isLongFormat :: "TextString \<Rightarrow> bool" where
  "isLongFormat (Text _ (LocaleDateTime _ _)) = True"
| "isLongFormat _ = False"

fun isShortFormat :: "TextString \<Rightarrow> bool" where
  "isShortFormat (Text _ (LocaleDate _ _)) = True"
| "isShortFormat _ = False"

text \<open>
  The time of day of a millisecond timestamp as the specification speaks of it: the
  milliseconds since the start of its UTC day.
\<close>

definition spec_utcTimeOfDay :: "real \<Rightarrow> real" where
  "spec_utcTimeOfDay timestamp = timestamp - 86400000 * of_int \<lfloor>timestamp / 86400000\<rfloor>"

text \<open>The line the loop of \<^verbatim>\<open>setXIndex\<close> builds from one line of the chart.\<close>

definition textLineOf :: "Env \<Rightarrow> TextStyle \<Rightarrow> int \<Rightarrow> DataLine \<Rightarrow> Line" where
  "textLineOf env textStyle i dataLine =
     \<lparr>line_id = dl_id dataLine,
      line_name = Text textStyle (QStr (dl_name dataLine)),
      line_value = Text textStyle (LocaleInt (dl_y dataLine ! nat i)),
      line_valueColor = dl_color dataLine,
      line_alpha = initial_line_alpha env\<rparr>"

text \<open>Whether some series of the chart has a strictly positive value at an index.\<close>

definition hasPositiveAt :: "StatisticalChart \<Rightarrow> int \<Rightarrow> bool" where
  "hasPositiveAt chartData i = list_ex (\<lambda>dataLine. dl_y dataLine ! nat i > 0) (chart_lines chartData)"

text \<open>
  The layout sum: slot \<open>i\<close> contributes its alpha times the text font height plus the
  space between lines; a slot beyond the recorded lines has alpha 1. The sum is the one
  the doubles give: every product is rounded, and the terms are added in the order of the
  slots to a sum that starts at 0 and is rounded after every addition.
\<close>

definition spec_lineTerm :: "Env \<Rightarrow> Widget \<Rightarrow> nat \<Rightarrow> float64" where
  "spec_lineTerm env w i =
     fmul (if i < length (w_lines w) then line_alpha (w_lines w ! i) else Finite 1)
          (double_of_int (font_height (w_textStyle w) + statisticsDetailsPopupMidLineSpace env))"

definition spec_linesHeight :: "Env \<Rightarrow> Widget \<Rightarrow> nat \<Rightarrow> float64" where
  "spec_linesHeight env w k = foldl fadd (Finite 0) (map (spec_lineTerm env w) [0..<k])"

text \<open>The same sum with the term of slot \<open>j\<close> left out.\<close>

definition spec_linesHeightWithout :: "Env \<Rightarrow> Widget \<Rightarrow> nat \<Rightarrow> nat \<Rightarrow> float64" where
  "spec_linesHeightWithout env w k j =
     foldl fadd (Finite 0) (map (spec_lineTerm env w) (filter (\<lambda>i. i \<noteq> j) [0..<k]))"

text \<open>
  The y coordinate of line slot \<open>k\<close> that belongs to a sum \<open>s\<close> of the heights of the
  lines before it: defined when the \<^verbatim>\<open>int\<close> additions stay in range, the sum is finite and
  the result is an \<^verbatim>\<open>int\<close>.
\<close>

definition spec_lineYFrom :: "Env \<Rightarrow> Widget \<Rightarrow> nat \<Rightarrow> float64 \<Rightarrow> int option" where
  "spec_lineYFrom env w k s =
     (let base = r_y (w_textRect w) + font_height (w_headerStyle w)
                 + m_bottom (statisticsDetailsPopupMargins env)
      in if (0 < k \<longrightarrow> int_range (font_height (w_textStyle w)
                                      + statisticsDetailsPopupMidLineSpace env))
            \<and> int_range (r_y (w_textRect w) + font_height (w_headerStyle w))
            \<and> int_range base
         then (case s of
                 Finite h \<Rightarrow> if int_range (base + \<lceil>h\<rceil>) then Some (base + \<lceil>h\<rceil>) else None
               | _ \<Rightarrow> None)
         else None)"

text \<open>
  The sum of the specification's sentence read over the reals: the alphas times the line
  height, added exactly.
\<close>

fun float64_value :: "float64 \<Rightarrow> real" where
  "float64_value (Finite x) = x"
| "float64_value _ = 0"

definition spec_exactSum :: "Env \<Rightarrow> Widget \<Rightarrow> nat \<Rightarrow> real" where
  "spec_exactSum env w k =
     (\<Sum>i\<leftarrow>[0..<k].
        float64_value (if i < length (w_lines w) then line_alpha (w_lines w ! i) else Finite 1)
        * real_of_int (font_height (w_textStyle w) + statisticsDetailsPopupMidLineSpace env))"

subsection \<open>A concrete chart and widget\<close>

definition example_env :: Env where
  "example_env =
     \<lparr>statisticsDetailsPopupStyle = \<lparr>font_height = 16\<rparr>,
      semiboldTextStyle = \<lparr>font_height = 18\<rparr>,
      statisticsDetailsPopupMargins = \<lparr>m_left = 8, m_top = 8, m_right = 8, m_bottom = 8\<rparr>,
      statisticsDetailsPopupPadding = \<lparr>m_left = 6, m_top = 6, m_right = 6, m_bottom = 6\<rparr>,
      statisticsDetailsPopupMidLineSpace = 4,
      textMaxWidth = (\<lambda>style text. 40),
      initialSize = \<lparr>s_width = 100, s_height = 30\<rparr>,
      initial_xIndex = - 1,
      initial_alpha = Finite 1,
      initial_line_alpha = Finite 1\<rparr>"

text \<open>
  Three points: 1970-01-01 00:00:30 UTC, 1970-01-02 00:00:00 UTC and
  1970-01-02 01:01:01 UTC, in milliseconds; two series.
\<close>

definition example_chart :: StatisticalChart where
  "example_chart =
     \<lparr>chart_x = [Finite 30000, Finite 86400000, Finite 90061000],
      chart_lines =
        [\<lparr>dl_id = 0, dl_name = ''Joined'', dl_y = [5, 0, 7], dl_color = 1\<rparr>,
         \<lparr>dl_id = 1, dl_name = ''Left'', dl_y = [0, 0, - 2], dl_color = 2\<rparr>]\<rparr>"

text \<open>The state the constructor returns for this chart with zoom enabled.\<close>

definition example_widget :: Widget where
  "example_widget =
     \<lparr>w_zoomEnabled = True,
      w_chartData = example_chart,
      w_textStyle = \<lparr>font_height = 16\<rparr>,
      w_headerStyle = \<lparr>font_height = 18\<rparr>,
      w_longFormat = ''ddd, MMM d hh:mm'',
      w_shortFormat = ''ddd, MMM d'',
      w_header = EmptyText,
      w_lines = [],
      w_xIndex = - 1,
      w_alpha = Finite 1,
      w_innerRect = \<lparr>r_x = 6, r_y = 6, r_width = 108, r_height = 76\<rparr>,
      w_textRect = \<lparr>r_x = 14, r_y = 14, r_width = 92, r_height = 60\<rparr>,
      w_calculatedWidth = 120,
      w_size = \<lparr>s_width = 120, s_height = 88\<rparr>,
      w_transparentForMouseEvents = False\<rparr>"

text \<open>The same widget after \<^verbatim>\<open>setXIndex(2)\<close>: both lines recorded.\<close>

definition example_widget_at2 :: Widget where
  "example_widget_at2 =
     example_widget
       \<lparr>w_header := Text \<lparr>font_height = 18\<rparr> (LocaleDateTime 90061 ''ddd, MMM d hh:mm''),
        w_lines :=
          [\<lparr>line_id = 0, line_name = Text \<lparr>font_height = 16\<rparr> (QStr ''Joined''),
            line_value = Text \<lparr>font_height = 16\<rparr> (LocaleInt 7),
            line_valueColor = 1, line_alpha = Finite 1\<rparr>,
           \<lparr>line_id = 1, line_name = Text \<lparr>font_height = 16\<rparr> (QStr ''Left''),
            line_value = Text \<lparr>font_height = 16\<rparr> (LocaleInt (- 2)),
            line_valueColor = 2, line_alpha = Finite 1\<rparr>],
        w_xIndex := 2,
        w_transparentForMouseEvents := False\<rparr>"

text \<open>The double nearest to one tenth.\<close>

definition double_tenth :: float64 where
  "double_tenth = Finite (3602879701896397 / 36028797018963968)"

text \<open>The widget after \<^verbatim>\<open>setLineAlpha(1, 0.1)\<close> on top: the second line fades.\<close>

definition example_widget_faded :: Widget where
  "example_widget_faded =
     example_widget_at2
       \<lparr>w_lines :=
          [\<lparr>line_id = 0, line_name = Text \<lparr>font_height = 16\<rparr> (QStr ''Joined''),
            line_value = Text \<lparr>font_height = 16\<rparr> (LocaleInt 7),
            line_valueColor = 1, line_alpha = Finite 1\<rparr>,
           \<lparr>line_id = 1, line_name = Text \<lparr>font_height = 16\<rparr> (QStr ''Left''),
            line_value = Text \<lparr>font_height = 16\<rparr> (LocaleInt (- 2)),
            line_valueColor = 2, line_alpha = double_tenth\<rparr>],
        w_innerRect := \<lparr>r_x = 6, r_y = 6, r_width = 108, r_height = 58\<rparr>,
        w_textRect := \<lparr>r_x = 14, r_y = 14, r_width = 92, r_height = 42\<rparr>,
        w_size := \<lparr>s_width = 120, s_height = 70\<rparr>\<rparr>"

subsection \<open>The layout invariant\<close>

text \<open>
  What every reachable state satisfies: the text rectangle starts below the top padding and
  the top margin, the text styles and the date formats are the ones the constructor set,
  and the \<^verbatim>\<open>int\<close> additions of the return expression of \<^verbatim>\<open>lineYAt\<close> stay in range (the
  constructor has evaluated them).
\<close>

definition layout_inv :: "Env \<Rightarrow> Widget \<Rightarrow> bool" where
  "layout_inv env w =
     (r_y (w_textRect w)
        = m_top (statisticsDetailsPopupPadding env) + m_top (statisticsDetailsPopupMargins env)
      \<and> w_headerStyle w = semiboldTextStyle env
      \<and> w_textStyle w = statisticsDetailsPopupStyle env
      \<and> w_longFormat w = ''ddd, MMM d hh:mm''
      \<and> w_shortFormat w = ''ddd, MMM d''
      \<and> int_range (m_top (statisticsDetailsPopupPadding env)
                   + m_top (statisticsDetailsPopupMargins env)
                   + font_height (semiboldTextStyle env))
      \<and> int_range (m_top (statisticsDetailsPopupPadding env)
                   + m_top (statisticsDetailsPopupMargins env)
                   + font_height (semiboldTextStyle env)
                   + m_bottom (statisticsDetailsPopupMargins env)))"

section \<open>Properties\<close>

subsection \<open>Powers of two\<close>

lemma powi_nat: "0 \<le> k \<Longrightarrow> (2::real) powi k = 2 ^ nat k"
  by (simp add: power_int_def)

lemma powi_neg: "0 \<le> k \<Longrightarrow> (2::real) powi (- k) = 1 / 2 ^ nat k"
  by (simp add: power_int_def field_simps)

lemma powi_add: "(2::real) powi (a + b) = 2 powi a * 2 powi b"
  by (simp add: power_int_add)

lemma powi_mono: "a \<le> b \<Longrightarrow> (2::real) powi a \<le> 2 powi b"
  by (rule power_int_increasing) simp_all

lemma powi_less_iff: "(2::real) powi a < 2 powi b \<longleftrightarrow> a < b"
proof
  assume l: "(2::real) powi a < 2 powi b"
  show "a < b"
  proof (rule ccontr)
    assume "\<not> a < b"
    then have "(2::real) powi b \<le> 2 powi a" by (simp add: powi_mono)
    with l show False by simp
  qed
next
  assume "a < b"
  then show "(2::real) powi a < 2 powi b"
    by (rule power_int_strict_increasing) simp
qed

subsection \<open>The binade\<close>

lemma binade_bounds:
  assumes "0 < x"
  shows "2 powi (binade x) \<le> x" and "x < 2 powi (binade x + 1)"
proof -
  have "2 powi (binade x) \<le> x \<and> x < 2 powi (binade x + 1)"
  proof (cases "1 \<le> x")
    case True
    define N where "N = \<lfloor>x\<rfloor>"
    have N: "0 < N" using True by (simp add: N_def)
    from bitlen_bounds [OF N]
    have lo: "2 ^ nat (bitlen N - 1) \<le> N" and hi: "N < 2 ^ nat (bitlen N)" by simp_all
    have b1: "1 \<le> bitlen N" using N by (simp add: bitlen_alt_def)
    have k: "binade x = bitlen N - 1" using True by (simp add: binade_def N_def)
    have "(2::real) ^ nat (bitlen N - 1) \<le> of_int N"
      using lo by (metis of_int_le_iff of_int_numeral of_int_power)
    also have "\<dots> \<le> x" by (simp add: N_def)
    finally have 1: "2 powi (binade x) \<le> x"
      using b1 by (simp add: k powi_nat)
    have "N + 1 \<le> 2 ^ nat (bitlen N)" using hi by simp
    then have "of_int (N + 1) \<le> (2::real) ^ nat (bitlen N)"
      by (metis of_int_le_iff of_int_numeral of_int_power)
    moreover have "x < of_int (N + 1)" by (simp add: N_def)
    ultimately have "x < 2 ^ nat (bitlen N)" by linarith
    then have 2: "x < 2 powi (binade x + 1)"
      using b1 by (simp add: k powi_nat)
    from 1 2 show ?thesis ..
  next
    case False
    define r where "r = 1 / x"
    define M where "M = \<lceil>r\<rceil> - 1"
    have r1: "1 < r" using False assms by (simp add: r_def)
    have M: "0 < M" using r1 by (simp add: M_def)
    from bitlen_bounds [OF M]
    have lo: "2 ^ nat (bitlen M - 1) \<le> M" and hi: "M < 2 ^ nat (bitlen M)" by simp_all
    have b1: "1 \<le> bitlen M" using M by (simp add: bitlen_alt_def)
    have k: "binade x = - bitlen M" using False by (simp add: binade_def M_def r_def)
    have "M + 1 \<le> 2 ^ nat (bitlen M)" using hi by simp
    then have "of_int (M + 1) \<le> (2::real) ^ nat (bitlen M)"
      by (metis of_int_le_iff of_int_numeral of_int_power)
    moreover have "r \<le> of_int (M + 1)" by (simp add: M_def)
    ultimately have "r \<le> 2 ^ nat (bitlen M)" by linarith
    then have "1 / 2 ^ nat (bitlen M) \<le> x"
      using assms by (simp add: r_def field_simps)
    then have 1: "2 powi (binade x) \<le> x"
      using b1 by (simp add: k powi_neg)
    have "(2::real) ^ nat (bitlen M - 1) \<le> of_int M"
      using lo by (metis of_int_le_iff of_int_numeral of_int_power)
    moreover have "of_int M < r" by (simp add: M_def) linarith
    ultimately have "2 ^ nat (bitlen M - 1) < r" by linarith
    then have "x < 1 / 2 ^ nat (bitlen M - 1)"
      using assms by (simp add: r_def field_simps)
    moreover have "(2::real) powi (- (bitlen M - 1)) = 1 / 2 ^ nat (bitlen M - 1)"
      using b1 by (intro powi_neg) simp
    moreover have "binade x + 1 = - (bitlen M - 1)" by (simp add: k)
    ultimately have 2: "x < 2 powi (binade x + 1)"
      by simp
    from 1 2 show ?thesis ..
  qed
  then show "2 powi (binade x) \<le> x" and "x < 2 powi (binade x + 1)" by simp_all
qed

lemma binade_unique:
  assumes "0 < x" "2 powi k \<le> x" "x < 2 powi (k + 1)"
  shows "binade x = k"
proof -
  have "2 powi k < (2::real) powi (binade x + 1)"
    using assms(2) binade_bounds(2) [OF assms(1)] by linarith
  then have "k < binade x + 1" by (simp add: powi_less_iff)
  moreover have "2 powi (binade x) < (2::real) powi (k + 1)"
    using assms(3) binade_bounds(1) [OF assms(1)] by linarith
  then have "binade x < k + 1" by (simp add: powi_less_iff)
  ultimately show ?thesis by simp
qed

subsection \<open>Rounding\<close>

lemma round_half_even_of_int [simp]: "round_half_even (of_int m) = m"
  by (simp add: round_half_even_def)

lemma round_half_even_le: "q \<le> of_int b \<Longrightarrow> round_half_even q \<le> b"
  unfolding round_half_even_def Let_def
  by (auto simp: not_less) linarith+

lemma round_half_even_ge: "of_int a \<le> q \<Longrightarrow> a \<le> round_half_even q"
  unfolding round_half_even_def Let_def
  by (auto simp: not_less) linarith+

lemma round_half_even_abs_le:
  assumes "\<bar>q\<bar> \<le> of_int b"
  shows "\<bar>round_half_even q\<bar> \<le> b"
proof -
  have "q \<le> of_int b" "of_int (- b) \<le> q"
    using assms by simp_all
  then have "round_half_even q \<le> b" "- b \<le> round_half_even q"
    by (simp_all only: round_half_even_le round_half_even_ge)
  then show ?thesis by simp
qed

lemma round_half_even_abs_ge:
  assumes "of_int b \<le> \<bar>q\<bar>"
  shows "b \<le> \<bar>round_half_even q\<bar>"
proof (cases "0 \<le> q")
  case True
  then have "of_int b \<le> q" using assms by simp
  then have "b \<le> round_half_even q" by (rule round_half_even_ge)
  then show ?thesis by simp
next
  case False
  then have "q \<le> of_int (- b)" using assms by simp
  then have "round_half_even q \<le> - b" by (rule round_half_even_le)
  then show ?thesis by simp
qed

lemma float64_overflow_pos: "0 < float64_overflow"
  by (simp only: float64_overflow_def zero_less_power zero_less_numeral)

lemma round64_nonzero:
  "x \<noteq> 0 \<Longrightarrow> round64 x =
     (if float64_overflow \<le> \<bar>of_int (round_half_even (x / 2 powi ulp_exp x)) * 2 powi ulp_exp x\<bar>
      then (if 0 < x then PInf else NInf)
      else Finite (of_int (round_half_even (x / 2 powi ulp_exp x)) * 2 powi ulp_exp x))"
  by (simp add: round64_def Let_def)

lemma scaled_upper:
  assumes "x \<noteq> 0"
  shows "\<bar>x\<bar> / 2 powi ulp_exp x < 2 ^ 53"
proof -
  have "\<bar>x\<bar> < 2 powi (binade \<bar>x\<bar> + 1)"
    using assms by (intro binade_bounds) simp
  also have "\<dots> \<le> 2 powi (ulp_exp x + 53)"
    by (rule powi_mono) (simp add: ulp_exp_def)
  also have "\<dots> = 2 powi ulp_exp x * 2 ^ 53"
    by (simp add: powi_add)
  finally show ?thesis
    by (simp add: field_simps)
qed

lemma scaled_lower:
  assumes "x \<noteq> 0" "- 1022 \<le> binade \<bar>x\<bar>"
  shows "2 ^ 52 \<le> \<bar>x\<bar> / 2 powi ulp_exp x"
proof -
  have e: "ulp_exp x = binade \<bar>x\<bar> - 52"
    using assms(2) by (simp add: ulp_exp_def)
  have "2 powi ulp_exp x * 2 ^ 52 = (2::real) powi (ulp_exp x + 52)"
    by (simp add: powi_add)
  also have "\<dots> = 2 powi binade \<bar>x\<bar>"
    by (simp add: e)
  also have "\<dots> \<le> \<bar>x\<bar>"
    using assms(1) by (intro binade_bounds) simp
  finally show ?thesis
    by (simp add: field_simps)
qed

text \<open>What rounding returns has at most 53 significant bits at an admissible exponent.\<close>

lemma round64_form:
  assumes "round64 x = Finite y"
  shows "\<exists>m e. y = of_int m * 2 powi e \<and> \<bar>m\<bar> \<le> 2 ^ 53 \<and> - 1074 \<le> e \<and> \<bar>y\<bar> < float64_overflow"
proof (cases "x = 0")
  case True
  with assms have "y = 0" by (simp add: round64_def)
  then have "y = of_int 0 * 2 powi 0 \<and> \<bar>0::int\<bar> \<le> 2 ^ 53 \<and> - 1074 \<le> (0::int) \<and> \<bar>y\<bar> < float64_overflow"
    using float64_overflow_pos by simp
  then show ?thesis by blast
next
  case False
  let ?e = "ulp_exp x"
  let ?m = "round_half_even (x / 2 powi ?e)"
  from assms False have y: "y = of_int ?m * 2 powi ?e" and fin: "\<bar>y\<bar> < float64_overflow"
    by (auto simp: round64_nonzero split: if_splits)
  have "\<bar>x / 2 powi ?e\<bar> \<le> of_int (2 ^ 53)"
    using scaled_upper [OF False] by (simp add: abs_divide)
  then have "\<bar>?m\<bar> \<le> 2 ^ 53"
    by (rule round_half_even_abs_le)
  moreover have "- 1074 \<le> ?e"
    by (simp add: ulp_exp_def)
  ultimately show ?thesis
    using y fin by blast
qed

text \<open>Every such value is a fixed point of rounding.\<close>

lemma round64_fixed:
  assumes m: "\<bar>m\<bar> \<le> 2 ^ 53" and e: "- 1074 \<le> e"
    and fin: "\<bar>of_int m * 2 powi e\<bar> < float64_overflow"
  shows "round64 (of_int m * 2 powi e) = Finite (of_int m * 2 powi e)"
proof (cases "m = 0")
  case True
  then show ?thesis by (simp add: round64_def)
next
  case False
  define x :: real where "x = of_int m * 2 powi e"
  define L where "L = bitlen \<bar>m\<bar>"
  have x0: "x \<noteq> 0" using False by (simp add: x_def)
  have absx: "\<bar>x\<bar> = of_int \<bar>m\<bar> * 2 powi e"
    by (simp add: x_def abs_mult)
  have mpos: "0 < \<bar>m\<bar>" using False by simp
  from bitlen_bounds [OF mpos]
  have lo: "2 ^ nat (L - 1) \<le> \<bar>m\<bar>" and hi: "\<bar>m\<bar> < 2 ^ nat L"
    by (simp_all add: L_def)
  have L1: "1 \<le> L" using mpos by (simp add: L_def bitlen_alt_def)
  have lo': "(2::real) powi (L - 1) \<le> of_int \<bar>m\<bar>"
  proof -
    have "(2::real) ^ nat (L - 1) \<le> of_int \<bar>m\<bar>"
      using lo by (metis of_int_le_iff of_int_numeral of_int_power)
    then show ?thesis using L1 by (simp add: powi_nat)
  qed
  have hi': "of_int \<bar>m\<bar> < (2::real) powi L"
  proof -
    have "of_int \<bar>m\<bar> < (2::real) ^ nat L"
      using hi by (metis of_int_less_iff of_int_numeral of_int_power)
    then show ?thesis using L1 by (simp add: powi_nat)
  qed
  have "2 powi (L - 1 + e) \<le> \<bar>x\<bar>"
    unfolding absx powi_add using lo' by (simp add: mult_right_mono)
  moreover have "\<bar>x\<bar> < 2 powi (L - 1 + e + 1)"
  proof -
    have "\<bar>x\<bar> < 2 powi L * 2 powi e"
      unfolding absx using hi' by (simp add: mult_strict_right_mono)
    then show ?thesis by (simp add: powi_add)
  qed
  ultimately have b: "binade \<bar>x\<bar> = L - 1 + e"
    using x0 by (intro binade_unique) simp_all
  have L54: "L \<le> 54"
  proof -
    have p: "(2::int) ^ nat (L - 1) \<le> 2 ^ 53" using lo m by linarith
    have "nat (L - 1) \<le> 53"
      by (rule power_le_imp_le_exp [of "2::int"]) (simp, fact p)
    then show ?thesis by simp
  qed
  have "\<exists>M::int. x = of_int M * 2 powi ulp_exp x"
  proof (cases "L \<le> 53")
    case True
    then have ee: "ulp_exp x \<le> e" using e by (simp add: ulp_exp_def b)
    define d where "d = nat (e - ulp_exp x)"
    have "e = int d + ulp_exp x" using ee by (simp add: d_def)
    then have "2 powi e = (2::real) ^ d * 2 powi ulp_exp x"
      by (metis powi_add power_int_of_nat)
    then have "x = of_int (m * 2 ^ d) * 2 powi ulp_exp x"
      by (simp add: x_def)
    then show ?thesis by blast
  next
    case False
    with L54 have L: "L = 54" by simp
    have am: "\<bar>m\<bar> = 2 ^ 53" using lo m by (simp add: L)
    have ee: "ulp_exp x = e + 1" using e by (simp add: ulp_exp_def b L)
    have "even \<bar>m\<bar>" unfolding am by simp
    then have "even m" by (simp only: dvd_abs_iff)
    then have "m = 2 * (m div 2)" by simp
    then have h: "of_int m = 2 * (of_int (m div 2) :: real)"
      by (metis of_int_mult of_int_numeral)
    have a: "x = of_int (m div 2) * (2::real) powi (e + 1)"
      unfolding x_def by (simp add: h powi_add)
    have "x = of_int (m div 2) * 2 powi ulp_exp x"
      by (subst ee) (rule a)
    then show ?thesis by blast
  qed
  then obtain M :: int where M: "x = of_int M * 2 powi ulp_exp x" ..
  have "x / 2 powi ulp_exp x = of_int M"
    by (subst M) simp
  then have r: "of_int (round_half_even (x / 2 powi ulp_exp x)) * 2 powi ulp_exp x = x"
    using M by simp
  have "round64 x = Finite x"
    using fin unfolding round64_nonzero [OF x0] r by (simp add: x_def)
  then show ?thesis by (simp add: x_def)
qed

lemma round64_idem:
  assumes "round64 x = Finite y"
  shows "round64 y = Finite y"
proof -
  from round64_form [OF assms] obtain m e where
    "y = of_int m * 2 powi e" "\<bar>m\<bar> \<le> 2 ^ 53" "- 1074 \<le> e" "\<bar>y\<bar> < float64_overflow"
    by blast
  then show ?thesis
    using round64_fixed [of m e] by simp
qed

text \<open>The integers up to \<open>2\<^sup>5\<^sup>3\<close> in magnitude are doubles.\<close>

lemma round64_of_int:
  assumes "\<bar>n\<bar> \<le> 2 ^ 53"
  shows "round64 (of_int n) = Finite (of_int n)"
proof -
  have "\<bar>real_of_int n\<bar> \<le> 2 ^ 53"
    using assms by (metis of_int_abs of_int_le_iff of_int_numeral of_int_power)
  also have "\<dots> < (2::real) ^ 1024"
    by (rule power_strict_increasing) simp_all
  finally have "\<bar>of_int n * 2 powi 0\<bar> < float64_overflow"
    by (simp only: float64_overflow_def power_int_0_right mult_1_right)
  from round64_fixed [OF assms _ this] show ?thesis by simp
qed

text \<open>Rounding does not go below a power of two that the argument reaches.\<close>

lemma round64_large:
  assumes k: "2 powi k \<le> \<bar>x\<bar>" "- 1022 \<le> k" and y: "round64 x = Finite y"
  shows "2 powi k \<le> \<bar>y\<bar>"
proof -
  have pos: "(0::real) < 2 powi k" by simp
  have x0: "x \<noteq> 0"
  proof
    assume "x = 0"
    then have "(2::real) powi k \<le> 0" using k(1) by simp
    with pos show False by linarith
  qed
  have "2 powi k < (2::real) powi (binade \<bar>x\<bar> + 1)"
    using k(1) binade_bounds(2) [of "\<bar>x\<bar>"] x0 by simp
  then have kb: "k \<le> binade \<bar>x\<bar>" by (simp add: powi_less_iff)
  then have b: "- 1022 \<le> binade \<bar>x\<bar>" using k(2) by simp
  have e: "ulp_exp x = binade \<bar>x\<bar> - 52"
    using b by (simp add: ulp_exp_def)
  let ?m = "round_half_even (x / 2 powi ulp_exp x)"
  from y x0 have yy: "y = of_int ?m * 2 powi ulp_exp x"
    by (auto simp: round64_nonzero split: if_splits)
  have "of_int (2 ^ 52) \<le> \<bar>x / 2 powi ulp_exp x\<bar>"
    using scaled_lower [OF x0 b] by (simp add: abs_divide)
  then have "2 ^ 52 \<le> \<bar>?m\<bar>"
    by (rule round_half_even_abs_ge)
  then have "(2::real) ^ 52 \<le> of_int \<bar>?m\<bar>"
    by (metis of_int_le_iff of_int_numeral of_int_power)
  then have "2 ^ 52 * 2 powi ulp_exp x \<le> of_int \<bar>?m\<bar> * (2::real) powi ulp_exp x"
    by (simp add: mult_right_mono)
  moreover have "2 ^ 52 * 2 powi ulp_exp x = (2::real) powi binade \<bar>x\<bar>"
    using powi_add [of "ulp_exp x" 52] by (simp add: e)
  moreover have "\<bar>y\<bar> = of_int \<bar>?m\<bar> * 2 powi ulp_exp x"
    by (simp add: yy abs_mult)
  moreover have "(2::real) powi k \<le> 2 powi binade \<bar>x\<bar>"
    using kb by (rule powi_mono)
  ultimately show ?thesis by linarith
qed

subsection \<open>The operations on doubles\<close>

lemmas float64_eval =
  round64_def ulp_exp_def binade_def round_half_even_def float64_overflow_def
  compute_bitlen Let_def double_of_int_def trunc_toward_zero_def int_range_def int64_range_def
  add_int_def

lemma is_float64_round64: "is_float64 (round64 x)"
  by (cases "round64 x") (simp_all add: round64_idem)

lemma is_float64_fadd: "is_float64 (fadd a b)"
  by (cases a; cases b) (simp_all add: is_float64_round64)

lemma fadd_zero_right: "is_float64 a \<Longrightarrow> fadd a (Finite 0) = a"
  by (cases a) simp_all

text \<open>The doubles of the example are doubles.\<close>

lemma example_doubles:
  "is_float64 double_tenth" "is_float64 (Finite 1)" "is_float64 (Finite 0)"
  "is_float64 (Finite 30000)" "is_float64 (Finite 86400000)" "is_float64 (Finite 90061000)"
  by (simp_all add: double_tenth_def float64_eval)

lemma double_of_int_exact: "int_range n \<Longrightarrow> double_of_int n = Finite (of_int n)"
  unfolding double_of_int_def
  by (rule round64_of_int) (auto simp: int_range_def)

lemma fmul_zero_int: "int_range n \<Longrightarrow> fmul (Finite 0) (double_of_int n) = Finite 0"
  by (simp add: double_of_int_exact round64_def)

lemma trunc_toward_zero_of_int [simp]: "trunc_toward_zero (of_int n) = n"
  by (simp add: trunc_toward_zero_def)

text \<open>
  Converting an \<^verbatim>\<open>int\<close> to a double, adding an integral double and converting back gives
  the integer sum when that is an \<^verbatim>\<open>int\<close>, and is undefined otherwise.
\<close>

lemma double_to_int_round64_of_int:
  "double_to_int (round64 (of_int n)) = (if int_range n then Some n else None)"
proof (cases "\<bar>n\<bar> \<le> 2 ^ 53")
  case True
  then show ?thesis by (simp add: round64_of_int)
next
  case False
  then have big: "2 ^ 53 \<le> \<bar>n\<bar>" by simp
  then have nr: "\<not> int_range n" by (auto simp: int_range_def)
  have "(2::real) ^ 53 \<le> \<bar>of_int n\<bar>"
    using big by (metis of_int_abs of_int_le_iff of_int_numeral of_int_power)
  then have p: "2 powi 53 \<le> \<bar>real_of_int n\<bar>" by simp
  show ?thesis
  proof (cases "round64 (of_int n)")
    case (Finite y)
    from round64_large [OF p _ Finite] have "2 powi 53 \<le> \<bar>y\<bar>" by simp
    then have "2 ^ 53 \<le> \<bar>y\<bar>" by simp
    then have "\<not> int_range (trunc_toward_zero y)"
      by (auto simp: int_range_def trunc_toward_zero_def)
    then show ?thesis using Finite nr by simp
  qed (simp_all add: nr)
qed

lemma double_to_int_sum:
  assumes "int_range b"
  shows "double_to_int (fadd (double_of_int b) (fceil s))
         = (case s of
              Finite h \<Rightarrow> if int_range (b + \<lceil>h\<rceil>) then Some (b + \<lceil>h\<rceil>) else None
            | _ \<Rightarrow> None)"
proof (cases s)
  case (Finite h)
  have "real_of_int b + real_of_int \<lceil>h\<rceil> = real_of_int (b + \<lceil>h\<rceil>)" by simp
  then show ?thesis
    using Finite
    by (simp only: double_of_int_exact [OF assms] fceil.simps fadd.simps
        double_to_int_round64_of_int float64.case)
qed (simp_all add: double_of_int_exact [OF assms])

subsection \<open>The loop of lineYAt computes the layout sum\<close>

lemma lineYAt_loop_foldl:
  "0 \<le> i \<Longrightarrow>
   lineYAt_loop env w index i acc
   = (if i < index
         \<and> \<not> int_range (font_height (w_textStyle w) + statisticsDetailsPopupMidLineSpace env)
      then None
      else Some (foldl fadd acc (map (spec_lineTerm env w) [nat i..<nat index])))"
proof (induction env w index i acc rule: lineYAt_loop.induct)
  case (1 env w index i linesHeight)
  let ?h = "font_height (w_textStyle w) + statisticsDetailsPopupMidLineSpace env"
  show ?case
  proof (cases "i < index")
    case True
    note step = True
    show ?thesis
    proof (cases "int_range ?h")
      case False
      then show ?thesis
        using step by (subst lineYAt_loop.simps) (simp add: add_int_def)
    next
      case True
      let ?alpha = "if i \<ge> int (length (w_lines w)) then Finite 1
                    else line_alpha (w_lines w ! nat i)"
      let ?acc = "fadd linesHeight (fmul ?alpha (double_of_int ?h))"
      have tm: "fmul ?alpha (double_of_int ?h) = spec_lineTerm env w (nat i)"
        using \<open>0 \<le> i\<close> by (auto simp: spec_lineTerm_def)
      have rng: "[nat i..<nat index] = nat i # [nat (i + 1)..<nat index]"
        using step \<open>0 \<le> i\<close> by (simp add: upt_conv_Cons nat_add_distrib)
      have a: "add_int (font_height (w_textStyle w)) (statisticsDetailsPopupMidLineSpace env)
               = Some ?h"
        using True by (simp add: add_int_def)
      have "lineYAt_loop env w index i linesHeight = lineYAt_loop env w index (i + 1) ?acc"
        using step by (subst lineYAt_loop.simps) (simp add: Let_def a)
      also have "\<dots> = Some (foldl fadd ?acc (map (spec_lineTerm env w) [nat (i + 1)..<nat index]))"
        using step \<open>0 \<le> i\<close> True by (subst "1.IH" [OF step refl a]) simp_all
      finally show ?thesis
        using step True unfolding rng tm by simp
    qed
  next
    case False
    then have "lineYAt_loop env w index i linesHeight = Some linesHeight"
      by (subst lineYAt_loop.simps) simp
    moreover have "map (spec_lineTerm env w) [nat i..<nat index] = []"
      using False by simp
    ultimately show ?thesis
      using False by (simp only: foldl_Nil if_False simp_thms)
  qed
qed

lemma lineYAt_spec:
  assumes "0 \<le> k"
  shows "lineYAt env w k = spec_lineYFrom env w (nat k) (spec_linesHeight env w (nat k))"
proof -
  let ?h = "font_height (w_textStyle w) + statisticsDetailsPopupMidLineSpace env"
  let ?a = "r_y (w_textRect w) + font_height (w_headerStyle w)"
  let ?b = "?a + m_bottom (statisticsDetailsPopupMargins env)"
  have loop: "lineYAt_loop env w k 0 (Finite 0)
              = (if 0 < k \<and> \<not> int_range ?h then None
                 else Some (spec_linesHeight env w (nat k)))"
    by (simp add: lineYAt_loop_foldl spec_linesHeight_def)
  show ?thesis
  proof (cases "(0 < k \<longrightarrow> int_range ?h) \<and> int_range ?a \<and> int_range ?b")
    case True
    then have r: "int_range ?b" and g: "\<not> (0 < k \<and> \<not> int_range ?h)" by auto
    show ?thesis
      using assms True
      by (simp add: lineYAt_def loop g add_int_def spec_lineYFrom_def
          double_to_int_sum [OF r] Let_def)
  next
    case False
    then show ?thesis
      using assms
      by (auto simp: lineYAt_def loop add_int_def spec_lineYFrom_def Let_def)
  qed
qed

lemma spec_linesHeight_0: "spec_linesHeight env w 0 = Finite 0"
  by (simp add: spec_linesHeight_def)

lemma lineYAt_Some_ranges:
  assumes "lineYAt env w k = Some y"
  shows "int_range (r_y (w_textRect w) + font_height (w_headerStyle w))"
    and "int_range (r_y (w_textRect w) + font_height (w_headerStyle w)
                    + m_bottom (statisticsDetailsPopupMargins env))"
  using assms
  by (auto simp: lineYAt_def add_int_def split: option.splits if_splits)

subsection \<open>Resizing keeps everything but the geometry\<close>

lemma onSizeValue_textRect_y:
  "r_y (w_textRect (onSizeValue env w s))
   = m_top (statisticsDetailsPopupPadding env) + m_top (statisticsDetailsPopupMargins env)"
  by (simp add: onSizeValue_def Let_def marginsRemoved_def Rect_def)

lemma onSizeValue_fields:
  "w_lines (onSizeValue env w s) = w_lines w"
  "w_header (onSizeValue env w s) = w_header w"
  "w_xIndex (onSizeValue env w s) = w_xIndex w"
  "w_size (onSizeValue env w s) = w_size w"
  "w_textStyle (onSizeValue env w s) = w_textStyle w"
  "w_headerStyle (onSizeValue env w s) = w_headerStyle w"
  "w_longFormat (onSizeValue env w s) = w_longFormat w"
  "w_shortFormat (onSizeValue env w s) = w_shortFormat w"
  "w_chartData (onSizeValue env w s) = w_chartData w"
  by (simp_all add: onSizeValue_def Let_def)

lemma resize_fields:
  "w_lines (resize env w a b) = w_lines w"
  "w_header (resize env w a b) = w_header w"
  "w_xIndex (resize env w a b) = w_xIndex w"
  "w_textStyle (resize env w a b) = w_textStyle w"
  "w_headerStyle (resize env w a b) = w_headerStyle w"
  "w_longFormat (resize env w a b) = w_longFormat w"
  "w_shortFormat (resize env w a b) = w_shortFormat w"
  "w_chartData (resize env w a b) = w_chartData w"
  by (simp_all add: resize_def Let_def onSizeValue_fields)

lemma resize_size: "w_size (resize env w a b) = \<lparr>s_width = a, s_height = b\<rparr>"
  by (simp add: resize_def Let_def onSizeValue_fields)

lemma resize_textRect_y:
  "r_y (w_textRect (resize env w a b)) = r_y (w_textRect w)
   \<or> r_y (w_textRect (resize env w a b))
      = m_top (statisticsDetailsPopupPadding env) + m_top (statisticsDetailsPopupMargins env)"
  by (simp add: resize_def Let_def onSizeValue_textRect_y)

lemma resizeHeight_Some:
  assumes "resizeHeight env w = Some w'"
  obtains y where "lineYAt env w (int (length (chart_lines (w_chartData w)))) = Some y"
    and "int_range (y + m_bottom (statisticsDetailsPopupMargins env))"
    and "w' = resize env w (s_width (w_size w)) (y + m_bottom (statisticsDetailsPopupMargins env))"
  using assms
  by (auto simp: resizeHeight_def add_int_def split: option.splits if_splits)

lemma resizeHeight_fields:
  assumes "resizeHeight env w = Some w'"
  shows "w_lines w' = w_lines w" "w_header w' = w_header w" "w_xIndex w' = w_xIndex w"
    "w_textStyle w' = w_textStyle w" "w_headerStyle w' = w_headerStyle w"
    "w_longFormat w' = w_longFormat w" "w_shortFormat w' = w_shortFormat w"
    "w_chartData w' = w_chartData w" "s_width (w_size w') = s_width (w_size w)"
  using assms by (auto elim!: resizeHeight_Some simp: resize_fields resize_size)

lemma resizeHeight_height:
  "map_option (\<lambda>w'. s_height (w_size w')) (resizeHeight env w)
   = (case lineYAt env w (int (length (chart_lines (w_chartData w)))) of
        None \<Rightarrow> None
      | Some y \<Rightarrow> add_int y (m_bottom (statisticsDetailsPopupMargins env)))"
  by (simp add: resizeHeight_def add_int_def resize_size split: option.splits)

subsection \<open>An invariant of the reachable states\<close>

lemma layout_inv_resize: "layout_inv env w \<Longrightarrow> layout_inv env (resize env w a b)"
  using resize_textRect_y [of env w a b]
  by (auto simp: layout_inv_def resize_fields)

lemma layout_inv_resizeHeight:
  "layout_inv env w \<Longrightarrow> resizeHeight env w = Some w' \<Longrightarrow> layout_inv env w'"
  by (auto elim!: resizeHeight_Some intro: layout_inv_resize)

lemma layout_inv_setXIndex:
  "layout_inv env w \<Longrightarrow> setXIndex env w i = Some w' \<Longrightarrow> layout_inv env w'"
  by (auto simp: setXIndex_def Let_def layout_inv_def split: if_splits option.splits)

lemma layout_inv_constructed:
  assumes "PointDetailsWidget env chartData maxAbsoluteValue zoomEnabled = Some w"
  shows "layout_inv env w"
proof -
  let ?w0 = "initialMembers env chartData zoomEnabled"
  from assms obtain cw where
    w: "resizeHeight env
          (resize env (onSizeValue env (?w0\<lparr>w_calculatedWidth := cw\<rparr>) (w_size ?w0)) cw
             (s_height (w_size (onSizeValue env (?w0\<lparr>w_calculatedWidth := cw\<rparr>) (w_size ?w0)))))
        = Some w"
    by (auto simp: PointDetailsWidget_def Let_def split: option.splits)
  let ?w1 = "onSizeValue env (?w0\<lparr>w_calculatedWidth := cw\<rparr>) (w_size ?w0)"
  let ?w2 = "resize env ?w1 cw (s_height (w_size ?w1))"
  have y1: "r_y (w_textRect ?w1)
            = m_top (statisticsDetailsPopupPadding env) + m_top (statisticsDetailsPopupMargins env)"
    by (rule onSizeValue_textRect_y)
  have y2: "r_y (w_textRect ?w2)
            = m_top (statisticsDetailsPopupPadding env) + m_top (statisticsDetailsPopupMargins env)"
    using resize_textRect_y [of env ?w1 cw "s_height (w_size ?w1)"] y1 by auto
  have f2: "w_headerStyle ?w2 = semiboldTextStyle env"
    "w_textStyle ?w2 = statisticsDetailsPopupStyle env"
    "w_longFormat ?w2 = ''ddd, MMM d hh:mm''" "w_shortFormat ?w2 = ''ddd, MMM d''"
    by (simp_all add: resize_fields onSizeValue_fields initialMembers_def)
  from w obtain y where "lineYAt env ?w2 (int (length (chart_lines (w_chartData ?w2)))) = Some y"
    by (rule resizeHeight_Some)
  from lineYAt_Some_ranges [OF this] have "layout_inv env ?w2"
    unfolding layout_inv_def y2 f2 by simp
  then show ?thesis
    using w by (rule layout_inv_resizeHeight)
qed

lemma reachable_layout_inv: "reachable env w \<Longrightarrow> layout_inv env w"
proof (induction rule: reachable.induct)
  case (constructed chartData maxAbsoluteValue zoomEnabled w)
  then show ?case by (blast intro: layout_inv_constructed)
next
  case (after_setXIndex w i w')
  then show ?case by (blast intro: layout_inv_setXIndex)
next
  case (after_setLineAlpha w lineId alpha w')
  from after_setLineAlpha.IH
  have "layout_inv env (w\<lparr>w_lines := setLineAlpha_loop (w_lines w) lineId alpha\<rparr>)"
    by (simp add: layout_inv_def)
  then show ?case
    using after_setLineAlpha.hyps(2) unfolding setLineAlpha_def
    by (rule layout_inv_resizeHeight)
next
  case (after_setAlpha w alpha)
  then show ?case by (simp add: layout_inv_def setAlpha_def)
next
  case (after_resize w width height)
  then show ?case by (blast intro: layout_inv_resize)
qed

subsection \<open>What setXIndex returns\<close>

lemma setXIndex_loop_valid:
  "0 \<le> i \<Longrightarrow> list_all (\<lambda>dataLine. nat i < length (dl_y dataLine)) dls \<Longrightarrow>
   setXIndex_loop env ts i dls (ls, hp) =
     Some (ls @ map (textLineOf env ts i) dls,
           hp \<or> list_ex (\<lambda>dataLine. dl_y dataLine ! nat i > 0) dls)"
proof (induction dls arbitrary: ls hp)
  case Nil
  then show ?case by simp
next
  case (Cons d dls)
  then show ?case
    by (simp add: vector_at_def textLineOf_def)
qed

lemma setXIndex_negative:
  "i < 0 \<Longrightarrow> setXIndex env w i = Some (w\<lparr>w_xIndex := i\<rparr>)"
  by (simp add: setXIndex_def)

lemma setXIndex_stores_index:
  "setXIndex env w i = Some w' \<Longrightarrow> w_xIndex w' = i"
  by (auto simp: setXIndex_def Let_def split: if_splits option.splits)

subsection \<open>The time of day that FormatTimestamp tests\<close>

lemma utcTime_msecs_secs: "utcTime_msecs s = (s mod 86400) * 1000"
proof -
  have "(s * 1000) mod (86400 * 1000) = (s mod 86400) * 1000"
    by (rule mult_mod_left [symmetric])
  then show ?thesis by (simp add: utcTime_msecs_def)
qed

lemma QTime_hour_secs: "QTime_hour (m * 1000) = m div 3600"
proof -
  have "(m * 1000) div (3600 * 1000) = m div 3600"
    by (rule div_mult_mult2) simp
  then show ?thesis by (simp add: QTime_hour_def)
qed

lemma QTime_minute_secs: "QTime_minute (m * 1000) = (m mod 3600) div 60"
proof -
  have "(m * 1000) mod (3600 * 1000) = (m mod 3600) * 1000"
    by (rule mult_mod_left [symmetric])
  moreover have "((m mod 3600) * 1000) div (60 * 1000) = (m mod 3600) div 60"
    by (rule div_mult_mult2) simp
  ultimately show ?thesis by (simp add: QTime_minute_def)
qed

lemma hour_minute_zero_iff:
  fixes m :: int
  assumes "0 \<le> m"
  shows "(m div 3600 \<noteq> 0 \<or> (m mod 3600) div 60 \<noteq> 0) = (60 \<le> m)"
proof (cases "m < 3600")
  case True
  with assms have "m div 3600 = 0" "m mod 3600 = m" by simp_all
  moreover have "(m div 60 \<noteq> 0) = (60 \<le> m)"
    using assms by (auto simp: zdiv_eq_0_iff)
  ultimately show ?thesis by simp
next
  case False
  then have "m div 3600 \<noteq> 0" using assms by (simp add: zdiv_eq_0_iff)
  with False show ?thesis by simp
qed

lemma utc_hour_minute:
  "(QTime_hour (utcTime_msecs s) \<noteq> 0 \<or> QTime_minute (utcTime_msecs s) \<noteq> 0)
   = (60 \<le> s mod 86400)"
  by (simp only: utcTime_msecs_secs QTime_hour_secs QTime_minute_secs)
     (rule hour_minute_zero_iff, simp)

lemma FormatTimestamp_branch:
  "secsFromTimestamp t = Some secs \<Longrightarrow>
   FormatTimestamp t lf sf =
     Some (if 60 \<le> secs mod 86400 then LocaleDateTime secs lf else LocaleDate secs sf)"
  unfolding FormatTimestamp_def utc_hour_minute by simp

lemma setXIndex_valid:
  assumes "validXIndex (w_chartData w) i"
    and "secsFromTimestamp (chart_x (w_chartData w) ! nat i) = Some secs"
  shows "setXIndex env w i =
     Some (w\<lparr>w_xIndex := i,
             w_header := Text (w_headerStyle w)
               (if 60 \<le> secs mod 86400 then LocaleDateTime secs (w_longFormat w)
                else LocaleDate secs (w_shortFormat w)),
             w_lines := map (textLineOf env (w_textStyle w) i) (chart_lines (w_chartData w)),
             w_transparentForMouseEvents :=
               \<not> (w_zoomEnabled w \<and> hasPositiveAt (w_chartData w) i)\<rparr>)"
  using assms
  by (simp add: setXIndex_def validXIndex_def vector_at_def setXIndex_loop_valid hasPositiveAt_def
      FormatTimestamp_branch)

lemma validXIndex_secs:
  assumes "validXIndex chartData i"
  obtains secs where "secsFromTimestamp (chart_x chartData ! nat i) = Some secs"
  using assms by (auto simp: validXIndex_def)

subsection \<open>The example widget is what the constructor builds\<close>

lemma example_secs:
  "secsFromTimestamp (Finite 30000) = Some 30"
  "secsFromTimestamp (Finite 86400000) = Some 86400"
  "secsFromTimestamp (Finite 90061000) = Some 90061"
  by (simp_all add: secsFromTimestamp_def QDateTime_fromSecsSinceEpoch_def float64_eval)

lemma example_lineYAt_fresh:
  assumes "w_lines w = []" "w_textStyle w = \<lparr>font_height = 16\<rparr>"
    "w_headerStyle w = \<lparr>font_height = 18\<rparr>" "r_y (w_textRect w) = 14"
  shows "lineYAt example_env w 2 = Some 80"
proof -
  have n: "[0..<nat 2] = [0, 1]"
    by (simp add: upt_rec)
  have d: "double_of_int 20 = Finite 20"
    by (rule double_of_int_exact [of 20, simplified]) (simp add: int_range_def)
  have s: "spec_linesHeight example_env w (nat 2) = Finite 40"
    unfolding spec_linesHeight_def n
    by (simp add: spec_lineTerm_def assms example_env_def d) (simp add: float64_eval)
  show ?thesis
    unfolding lineYAt_spec [of 2, simplified] s [simplified]
    by (simp add: spec_lineYFrom_def assms example_env_def int_range_def)
qed

lemma example_constructed:
  "PointDetailsWidget example_env example_chart (Finite 100) True = Some example_widget"
proof -
  let ?w0 = "initialMembers example_env example_chart True"
  let ?w1 = "example_widget
       \<lparr>w_innerRect := \<lparr>r_x = 6, r_y = 6, r_width = 88, r_height = 18\<rparr>,
        w_textRect := \<lparr>r_x = 14, r_y = 14, r_width = 72, r_height = 2\<rparr>,
        w_size := \<lparr>s_width = 100, s_height = 30\<rparr>\<rparr>"
  let ?w2 = "example_widget
       \<lparr>w_innerRect := \<lparr>r_x = 6, r_y = 6, r_width = 108, r_height = 18\<rparr>,
        w_textRect := \<lparr>r_x = 14, r_y = 14, r_width = 92, r_height = 2\<rparr>,
        w_size := \<lparr>s_width = 120, s_height = 30\<rparr>\<rparr>"
  have size0: "w_size ?w0 = \<lparr>s_width = 100, s_height = 30\<rparr>"
    by (simp add: initialMembers_def example_env_def)
  have cw: "calculatedWidth example_env ?w0 (Finite 100) = Some 120"
    by (simp add: calculatedWidth_def initialMembers_def example_env_def example_chart_def
        m_sum_h_def FormatTimestamp_branch [OF example_secs(1)] add_int_def int_range_def)
  have w1: "onSizeValue example_env (?w0\<lparr>w_calculatedWidth := 120\<rparr>)
              \<lparr>s_width = 100, s_height = 30\<rparr> = ?w1"
    by (simp add: onSizeValue_def initialMembers_def example_env_def example_widget_def
        QSize_isNull_def Rect_def Size_def marginsRemoved_def)
  have h1: "s_height (w_size ?w1) = 30"
    by simp
  have w2: "resize example_env ?w1 120 30 = ?w2"
    by (simp add: resize_def onSizeValue_def example_env_def example_widget_def
        QSize_isNull_def Rect_def marginsRemoved_def)
  have y2: "lineYAt example_env ?w2 2 = Some 80"
    by (rule example_lineYAt_fresh) (simp_all add: example_widget_def)
  have n2: "int (length (chart_lines (w_chartData ?w2))) = 2" "s_width (w_size ?w2) = 120"
     "m_bottom (statisticsDetailsPopupMargins example_env) = 8"
    by (simp_all add: example_widget_def example_chart_def example_env_def)
  have w3: "resizeHeight example_env ?w2 = Some example_widget"
    unfolding resizeHeight_def n2 y2
    by (simp add: resize_def onSizeValue_def example_env_def example_widget_def
        QSize_isNull_def Rect_def marginsRemoved_def add_int_def int_range_def)
  show ?thesis
    unfolding PointDetailsWidget_def Let_def cw size0 option.case w1 h1 w2 w3 ..
qed

lemma example_reachable: "reachable example_env example_widget"
  by (rule reachable.constructed [OF example_constructed])

lemma example_valid: "validXIndex (w_chartData example_widget) 0"
  "validXIndex (w_chartData example_widget) 1" "validXIndex (w_chartData example_widget) 2"
  by (simp_all add: validXIndex_def example_widget_def example_chart_def example_secs)

lemma example_at2:
  "setXIndex example_env example_widget 2 = Some example_widget_at2"
proof -
  have s: "secsFromTimestamp (chart_x (w_chartData example_widget) ! nat 2) = Some 90061"
    by (simp add: example_widget_def example_chart_def example_secs)
  show ?thesis
    unfolding setXIndex_valid [OF example_valid(3) s]
    by (simp add: example_widget_at2_def example_widget_def example_env_def example_chart_def
        textLineOf_def hasPositiveAt_def)
qed

lemma example_at2_reachable: "reachable example_env example_widget_at2"
  by (rule reachable.after_setXIndex [OF example_reachable example_at2])

lemma example_term_20: "double_of_int (font_height (w_textStyle example_widget_at2)
          + statisticsDetailsPopupMidLineSpace example_env) = Finite 20"
proof -
  have "double_of_int 20 = Finite 20"
    by (rule double_of_int_exact [of 20, simplified]) (simp add: int_range_def)
  then show ?thesis
    by (simp add: example_widget_at2_def example_widget_def example_env_def)
qed

lemma example_faded:
  "setLineAlpha example_env example_widget_at2 1 double_tenth = Some example_widget_faded"
proof -
  let ?w1 = "example_widget_at2
       \<lparr>w_lines := setLineAlpha_loop (w_lines example_widget_at2) 1 double_tenth\<rparr>"
  have n: "[0..<nat 2] = [0, 1]"
    by (simp add: upt_rec)
  have d: "double_of_int 20 = Finite 20"
    by (rule double_of_int_exact [of 20, simplified]) (simp add: int_range_def)
  have s: "spec_linesHeight example_env ?w1 (nat 2) = Finite 22"
    unfolding spec_linesHeight_def n
    by (simp add: spec_lineTerm_def example_widget_at2_def example_widget_def example_env_def
        d double_tenth_def)
       (simp add: float64_eval)
  have y: "lineYAt example_env ?w1 2 = Some 62"
    unfolding lineYAt_spec [of 2, simplified] s [simplified]
    by (simp add: spec_lineYFrom_def example_widget_at2_def example_widget_def example_env_def
        int_range_def)
  have n2: "int (length (chart_lines (w_chartData ?w1))) = 2"
    by (simp add: example_widget_at2_def example_widget_def example_chart_def)
  show ?thesis
    unfolding setLineAlpha_def resizeHeight_def n2 y
    by (simp add: resize_def onSizeValue_def example_env_def example_widget_at2_def
        example_widget_def example_widget_faded_def
        QSize_isNull_def Rect_def marginsRemoved_def add_int_def int_range_def)
qed

lemma example_faded_reachable: "reachable example_env example_widget_faded"
  by (rule reachable.after_setLineAlpha [OF example_at2_reachable example_faded])

subsection \<open>Header format\<close>

text \<open>
  Claim C1, as the code has it: for every index valid for the chart data,
  \<^verbatim>\<open>setXIndex\<close> returns, and the header is the header style's text of the timestamp's
  date-time: with the seconds \<open>secs\<close> that the double quotient \<open>x[i] / 1000\<close> truncates to,
  it is rendered by the date-time call with the widget's long format if and only if the
  UTC hour or minute of \<open>secs\<close> is nonzero, that is, the UTC time of day of \<open>secs\<close> is at
  least 60 seconds; otherwise it is rendered by the date call with the short format. The
  seconds of the time of day are not looked at. In a reachable state the long format is
  \<open>ddd, MMM d hh:mm\<close> and the short format is \<open>ddd, MMM d\<close>.
\<close>

theorem setXIndex_header_format:
  assumes "validXIndex (w_chartData w) i"
  shows "\<exists>w' secs. setXIndex env w i = Some w'
           \<and> secsFromTimestamp (chart_x (w_chartData w) ! nat i) = Some secs
           \<and> w_header w'
               = Text (w_headerStyle w)
                   (if 60 \<le> secs mod 86400 then LocaleDateTime secs (w_longFormat w)
                    else LocaleDate secs (w_shortFormat w))
           \<and> (reachable env w \<longrightarrow>
                 w_headerStyle w = semiboldTextStyle env
                 \<and> w_longFormat w = ''ddd, MMM d hh:mm''
                 \<and> w_shortFormat w = ''ddd, MMM d'')"
proof -
  from assms obtain secs where
    s: "secsFromTimestamp (chart_x (w_chartData w) ! nat i) = Some secs"
    by (rule validXIndex_secs)
  have "reachable env w \<longrightarrow>
          w_headerStyle w = semiboldTextStyle env
          \<and> w_longFormat w = ''ddd, MMM d hh:mm''
          \<and> w_shortFormat w = ''ddd, MMM d''"
    using reachable_layout_inv [of env w] by (simp add: layout_inv_def)
  then show ?thesis
    using s by (simp add: setXIndex_valid [OF assms s])
qed

theorem setXIndex_header_format_witness:
  "validXIndex (w_chartData example_widget) 2
   \<and> validXIndex (w_chartData example_widget) 1
   \<and> reachable example_env example_widget
   \<and> (\<exists>w'. setXIndex example_env example_widget 2 = Some w'
          \<and> w_header w' = Text \<lparr>font_height = 18\<rparr> (LocaleDateTime 90061 ''ddd, MMM d hh:mm''))
   \<and> (\<exists>w'. setXIndex example_env example_widget 1 = Some w'
          \<and> w_header w' = Text \<lparr>font_height = 18\<rparr> (LocaleDate 86400 ''ddd, MMM d''))"
proof -
  have v2: "validXIndex (w_chartData example_widget) 2"
    and v1: "validXIndex (w_chartData example_widget) 1"
    by (rule example_valid)+
  have s2: "secsFromTimestamp (chart_x (w_chartData example_widget) ! nat 2) = Some 90061"
    and s1: "secsFromTimestamp (chart_x (w_chartData example_widget) ! nat 1) = Some 86400"
    by (simp_all add: example_widget_def example_chart_def example_secs)
  have h: "semiboldTextStyle example_env = \<lparr>font_height = 18\<rparr>"
    by (simp add: example_env_def)
  from setXIndex_header_format [OF v2, of example_env] example_reachable
  have a: "\<exists>w'. setXIndex example_env example_widget 2 = Some w'
          \<and> w_header w' = Text \<lparr>font_height = 18\<rparr> (LocaleDateTime 90061 ''ddd, MMM d hh:mm'')"
    unfolding s2 by (auto simp: h)
  from setXIndex_header_format [OF v1, of example_env] example_reachable
  have b: "\<exists>w'. setXIndex example_env example_widget 1 = Some w'
          \<and> w_header w' = Text \<lparr>font_height = 18\<rparr> (LocaleDate 86400 ''ddd, MMM d'')"
    unfolding s1 by (auto simp: h)
  from a b v1 v2 example_reachable show ?thesis by blast
qed

text \<open>
  The claim as stated fails: the first point of the example chart is 30 seconds after
  midnight UTC, its time of day is not zero, and the header gets the short format.
\<close>

theorem setXIndex_header_format_counterexample:
  "validXIndex (w_chartData example_widget) 0
   \<and> chart_x (w_chartData example_widget) ! 0 = Finite 30000
   \<and> spec_utcTimeOfDay 30000 \<noteq> 0
   \<and> map_option (isLongFormat \<circ> w_header) (setXIndex example_env example_widget 0) = Some False
   \<and> map_option (isShortFormat \<circ> w_header) (setXIndex example_env example_widget 0) = Some True"
proof -
  have s: "secsFromTimestamp (chart_x (w_chartData example_widget) ! nat 0) = Some 30"
    by (simp add: example_widget_def example_chart_def example_secs)
  show ?thesis
    by (simp add: setXIndex_valid [OF example_valid(1) s] spec_utcTimeOfDay_def example_valid(1))
       (simp add: example_widget_def example_chart_def)
qed

subsection \<open>Negative indices\<close>

text \<open>
  Claim C2, as the code has it: for every negative index \<open>i\<close>, \<^verbatim>\<open>setXIndex(i)\<close> stores
  \<open>i\<close> as the x-index and changes nothing else: the header text, the line list, the
  mouse-transparency attribute and every other field are the same after the call as
  before it.
\<close>

theorem setXIndex_negative_only_index:
  assumes "i < 0"
  shows "setXIndex env w i = Some (w\<lparr>w_xIndex := i\<rparr>)"
  using assms by (rule setXIndex_negative)

theorem setXIndex_negative_only_index_witness:
  "(- 2 :: int) < 0
   \<and> setXIndex example_env example_widget_at2 (- 2) = Some (example_widget_at2\<lparr>w_xIndex := - 2\<rparr>)"
proof -
  have n: "(- 2 :: int) < 0" by simp
  from setXIndex_negative_only_index [OF n] n show ?thesis by blast
qed

text \<open>
  The claim as stated fails: the stored x-index is part of the state and the call
  overwrites it before the test of the sign.
\<close>

theorem setXIndex_negative_counterexample:
  "w_xIndex example_widget_at2 = 2
   \<and> map_option w_xIndex (setXIndex example_env example_widget_at2 (- 2)) = Some (- 2)
   \<and> setXIndex example_env example_widget_at2 (- 2) \<noteq> Some example_widget_at2"
proof -
  have a: "setXIndex example_env example_widget_at2 (- 2)
           = Some (example_widget_at2\<lparr>w_xIndex := - 2\<rparr>)"
    by (rule setXIndex_negative) simp
  have b: "w_xIndex example_widget_at2 = 2"
    by (simp add: example_widget_at2_def)
  have "w_xIndex (example_widget_at2\<lparr>w_xIndex := - 2\<rparr>) \<noteq> w_xIndex example_widget_at2"
    unfolding b by simp
  then have c: "example_widget_at2\<lparr>w_xIndex := - 2\<rparr> \<noteq> example_widget_at2"
    by metis
  show ?thesis using a b c by simp
qed

subsection \<open>Mouse transparency\<close>

text \<open>
  Claim C3: for every valid index \<open>i\<close>, \<^verbatim>\<open>setXIndex(i)\<close> returns; if zoom is disabled the
  widget is transparent for mouse events whatever the values at \<open>i\<close> are; if zoom is
  enabled the widget is not transparent if and only if at least one series has a strictly
  positive value at \<open>i\<close>.
\<close>

theorem setXIndex_mouse_transparency:
  assumes "validXIndex (w_chartData w) i"
  shows "\<exists>w'. setXIndex env w i = Some w'
           \<and> (\<not> w_zoomEnabled w \<longrightarrow> w_transparentForMouseEvents w')
           \<and> (w_zoomEnabled w \<longrightarrow>
                (\<not> w_transparentForMouseEvents w')
                = (\<exists>dataLine \<in> set (chart_lines (w_chartData w)). 0 < dl_y dataLine ! nat i))"
proof -
  from assms obtain secs where
    s: "secsFromTimestamp (chart_x (w_chartData w) ! nat i) = Some secs"
    by (rule validXIndex_secs)
  show ?thesis
    by (simp add: setXIndex_valid [OF assms s] hasPositiveAt_def list_ex_iff)
qed

theorem setXIndex_mouse_transparency_witness:
  "validXIndex (w_chartData example_widget) 0
   \<and> validXIndex (w_chartData example_widget) 1
   \<and> w_zoomEnabled example_widget
   \<and> (\<exists>w'. setXIndex example_env example_widget 0 = Some w'
          \<and> \<not> w_transparentForMouseEvents w')
   \<and> (\<exists>w'. setXIndex example_env example_widget 1 = Some w'
          \<and> w_transparentForMouseEvents w')
   \<and> (\<exists>w'. setXIndex example_env (example_widget\<lparr>w_zoomEnabled := False\<rparr>) 0 = Some w'
          \<and> w_transparentForMouseEvents w')"
proof -
  let ?off = "example_widget\<lparr>w_zoomEnabled := False\<rparr>"
  have v0: "validXIndex (w_chartData example_widget) 0"
    and v1: "validXIndex (w_chartData example_widget) 1"
    by (rule example_valid)+
  have v0': "validXIndex (w_chartData ?off) 0"
    using v0 by simp
  have z: "w_zoomEnabled example_widget" "\<not> w_zoomEnabled ?off"
    by (simp_all add: example_widget_def)
  have p0: "\<exists>dataLine \<in> set (chart_lines (w_chartData example_widget)). 0 < dl_y dataLine ! nat 0"
    by (simp add: example_widget_def example_chart_def)
  have p1: "\<not> (\<exists>dataLine \<in> set (chart_lines (w_chartData example_widget)). 0 < dl_y dataLine ! nat 1)"
    by (simp add: example_widget_def example_chart_def)
  from setXIndex_mouse_transparency [OF v0, of example_env] z(1) p0
  have a: "\<exists>w'. setXIndex example_env example_widget 0 = Some w'
          \<and> \<not> w_transparentForMouseEvents w'"
    by blast
  from setXIndex_mouse_transparency [OF v1, of example_env] z(1) p1
  have b: "\<exists>w'. setXIndex example_env example_widget 1 = Some w'
          \<and> w_transparentForMouseEvents w'"
    by blast
  from setXIndex_mouse_transparency [OF v0', of example_env] z(2)
  have c: "\<exists>w'. setXIndex example_env ?off 0 = Some w' \<and> w_transparentForMouseEvents w'"
    by blast
  from a b c v0 v1 z(1) show ?thesis by blast
qed

subsection \<open>Idempotence\<close>

text \<open>
  Claim C8: for every valid index \<open>i\<close>, calling \<^verbatim>\<open>setXIndex(i)\<close> a second time on
  the state the first call returned gives the same header text and the same line list
  (indeed the same state).
\<close>

theorem setXIndex_idempotent:
  assumes "validXIndex (w_chartData w) i"
  shows "\<exists>w1 w2. setXIndex env w i = Some w1 \<and> setXIndex env w1 i = Some w2
           \<and> w_header w2 = w_header w1 \<and> w_lines w2 = w_lines w1 \<and> w2 = w1"
proof -
  from assms obtain secs where
    s: "secsFromTimestamp (chart_x (w_chartData w) ! nat i) = Some secs"
    by (rule validXIndex_secs)
  let ?w1 = "w\<lparr>w_xIndex := i,
             w_header := Text (w_headerStyle w)
               (if 60 \<le> secs mod 86400 then LocaleDateTime secs (w_longFormat w)
                else LocaleDate secs (w_shortFormat w)),
             w_lines := map (textLineOf env (w_textStyle w) i) (chart_lines (w_chartData w)),
             w_transparentForMouseEvents :=
               \<not> (w_zoomEnabled w \<and> hasPositiveAt (w_chartData w) i)\<rparr>"
  have first: "setXIndex env w i = Some ?w1"
    by (rule setXIndex_valid [OF assms s])
  have v1: "validXIndex (w_chartData ?w1) i"
    using assms by simp
  have s1: "secsFromTimestamp (chart_x (w_chartData ?w1) ! nat i) = Some secs"
    using s by simp
  have second: "setXIndex env ?w1 i = Some ?w1"
    by (subst setXIndex_valid [OF v1 s1]) simp
  from first second show ?thesis by simp
qed

theorem setXIndex_idempotent_witness:
  "validXIndex (w_chartData example_widget) 2
   \<and> setXIndex example_env example_widget 2 = Some example_widget_at2
   \<and> setXIndex example_env example_widget_at2 2 = Some example_widget_at2"
proof -
  have v: "validXIndex (w_chartData example_widget) 2"
    by (rule example_valid)
  from setXIndex_idempotent [OF v, of example_env] example_at2 v show ?thesis
    by auto
qed

subsection \<open>The stored index\<close>

text \<open>
  Claim C9: for every integer \<open>i\<close>, after \<^verbatim>\<open>setXIndex(i)\<close> the getter \<^verbatim>\<open>xIndex()\<close>
  returns \<open>i\<close>. The call returns for every negative \<open>i\<close>, where it rebuilds neither the
  header nor the line list nor the mouse-transparency attribute, and for every index
  valid for the chart data. (At any other index a step of the source is undefined.)
\<close>

theorem xIndex_after_setXIndex:
  "(\<forall>w'. setXIndex env w i = Some w' \<longrightarrow> xIndex w' = i)
   \<and> (i < 0 \<longrightarrow> (\<exists>w'. setXIndex env w i = Some w' \<and> xIndex w' = i
                      \<and> w_header w' = w_header w \<and> w_lines w' = w_lines w
                      \<and> w_transparentForMouseEvents w' = w_transparentForMouseEvents w))
   \<and> (validXIndex (w_chartData w) i \<longrightarrow> (\<exists>w'. setXIndex env w i = Some w' \<and> xIndex w' = i))"
proof -
  have "\<exists>w'. setXIndex env w i = Some w' \<and> xIndex w' = i"
    if v: "validXIndex (w_chartData w) i"
  proof -
    from v obtain secs where
      s: "secsFromTimestamp (chart_x (w_chartData w) ! nat i) = Some secs"
      by (rule validXIndex_secs)
    show ?thesis
      by (simp add: setXIndex_valid [OF v s] xIndex_def)
  qed
  then show ?thesis
    by (auto simp: xIndex_def setXIndex_stores_index setXIndex_negative)
qed

theorem xIndex_after_setXIndex_witness:
  "(\<exists>w'. setXIndex example_env example_widget_at2 (- 5) = Some w' \<and> xIndex w' = - 5
         \<and> w_lines w' = w_lines example_widget_at2)
   \<and> (\<exists>w'. setXIndex example_env example_widget 2 = Some w' \<and> xIndex w' = 2)"
proof -
  have n: "(- 5 :: int) < 0" by simp
  have v: "validXIndex (w_chartData example_widget) 2"
    by (rule example_valid)
  from xIndex_after_setXIndex [of example_env example_widget_at2 "- 5"] n
  have a: "\<exists>w'. setXIndex example_env example_widget_at2 (- 5) = Some w' \<and> xIndex w' = - 5
         \<and> w_lines w' = w_lines example_widget_at2"
    by blast
  from xIndex_after_setXIndex [of example_env example_widget 2] v
  have b: "\<exists>w'. setXIndex example_env example_widget 2 = Some w' \<and> xIndex w' = 2"
    by blast
  from a b show ?thesis by blast
qed

subsection \<open>The position of the first line\<close>

text \<open>
  Claim C4, as the code has it: in every reachable widget state \<^verbatim>\<open>lineYAt(0)\<close> returns
  the y coordinate of the text rectangle, which is the top padding plus the top margin of
  the popup, plus the header font height plus the bottom margin.
\<close>

theorem lineYAt_0_reachable:
  assumes "reachable env w"
  shows "lineYAt env w 0
         = Some (m_top (statisticsDetailsPopupPadding env)
                 + m_top (statisticsDetailsPopupMargins env)
                 + font_height (semiboldTextStyle env)
                 + m_bottom (statisticsDetailsPopupMargins env))"
  using reachable_layout_inv [OF assms]
  by (simp add: lineYAt_spec spec_linesHeight_0 spec_lineYFrom_def layout_inv_def)

theorem lineYAt_0_reachable_witness:
  "reachable example_env example_widget_at2
   \<and> lineYAt example_env example_widget_at2 0 = Some 40"
proof -
  have "lineYAt example_env example_widget_at2 0
         = Some (m_top (statisticsDetailsPopupPadding example_env)
           + m_top (statisticsDetailsPopupMargins example_env)
           + font_height (semiboldTextStyle example_env)
           + m_bottom (statisticsDetailsPopupMargins example_env))"
    by (rule lineYAt_0_reachable [OF example_at2_reachable])
  also have "\<dots> = Some 40"
    by (simp add: example_env_def)
  finally show ?thesis
    using example_at2_reachable by simp
qed

text \<open>
  The claim as stated fails: in the state the constructor returns for the example chart the
  header font height plus the margin is 26, and \<^verbatim>\<open>lineYAt(0)\<close> is 40.
\<close>

theorem lineYAt_0_counterexample:
  "reachable example_env example_widget
   \<and> lineYAt example_env example_widget 0 = Some 40
   \<and> font_height (w_headerStyle example_widget)
      + m_bottom (statisticsDetailsPopupMargins example_env) = 26"
  using example_reachable
  by (simp add: lineYAt_spec spec_linesHeight_0 spec_lineYFrom_def int_range_def
      example_widget_def example_env_def)

subsection \<open>The position of every line\<close>

text \<open>
  Claim C5, as the code has it: for every index \<open>k \<ge> 0\<close> and every widget state,
  \<^verbatim>\<open>lineYAt(k)\<close> is the y coordinate of the text rectangle plus the header font height
  plus the bottom margin plus the ceiling of the sum of the line heights before slot \<open>k\<close>.
  The sum is the one the doubles give: slot \<open>i < k\<close> contributes the rounded product of
  \<open>alpha_i\<close> and (text font height plus the space between lines), where \<open>alpha_i\<close> is the
  alpha of the recorded line \<open>i\<close> if there is one and 1 otherwise, and the contributions
  are added in the order of the slots, the sum rounded after every addition. The result is
  defined when the \<^verbatim>\<open>int\<close> additions stay in range, the sum is finite and the result is an
  \<^verbatim>\<open>int\<close>; otherwise the behaviour of the source is undefined.
\<close>

theorem lineYAt_layout_sum:
  assumes "0 \<le> k"
  shows "lineYAt env w k
         = (if (0 < k \<longrightarrow> int_range (font_height (w_textStyle w)
                                       + statisticsDetailsPopupMidLineSpace env))
               \<and> int_range (r_y (w_textRect w) + font_height (w_headerStyle w))
               \<and> int_range (r_y (w_textRect w) + font_height (w_headerStyle w)
                            + m_bottom (statisticsDetailsPopupMargins env))
            then (case foldl fadd (Finite 0)
                         (map (\<lambda>i. fmul (if i < length (w_lines w)
                                          then line_alpha (w_lines w ! i) else Finite 1)
                                         (double_of_int
                                            (font_height (w_textStyle w)
                                             + statisticsDetailsPopupMidLineSpace env)))
                            [0..<nat k]) of
                    Finite s \<Rightarrow>
                      if int_range (r_y (w_textRect w) + font_height (w_headerStyle w)
                                    + m_bottom (statisticsDetailsPopupMargins env) + \<lceil>s\<rceil>)
                      then Some (r_y (w_textRect w) + font_height (w_headerStyle w)
                                 + m_bottom (statisticsDetailsPopupMargins env) + \<lceil>s\<rceil>)
                      else None
                  | _ \<Rightarrow> None)
            else None)"
proof -
  have "spec_lineTerm env w
        = (\<lambda>i. fmul (if i < length (w_lines w) then line_alpha (w_lines w ! i) else Finite 1)
                     (double_of_int (font_height (w_textStyle w)
                                     + statisticsDetailsPopupMidLineSpace env)))"
    by (rule ext) (simp only: spec_lineTerm_def)
  then have "spec_linesHeight env w (nat k)
        = foldl fadd (Finite 0)
            (map (\<lambda>i. fmul (if i < length (w_lines w) then line_alpha (w_lines w ! i) else Finite 1)
                            (double_of_int (font_height (w_textStyle w)
                                            + statisticsDetailsPopupMidLineSpace env)))
               [0..<nat k])"
    by (simp only: spec_linesHeight_def)
  then show ?thesis
    using assms
    by (simp only: lineYAt_spec [OF assms] spec_lineYFrom_def Let_def zero_less_nat_eq)
qed

theorem lineYAt_layout_sum_witness:
  "(0::int) \<le> 3 \<and> lineYAt example_env example_widget_faded 3 = Some 82"
proof -
  have k: "(0::int) \<le> 3" by simp
  have n: "[0..<nat 3] = [0, 1, 2]"
    by (simp add: upt_rec)
  have "lineYAt example_env example_widget_faded 3 = Some 82"
    unfolding lineYAt_layout_sum [OF k] n
    by (simp add: example_widget_faded_def example_widget_at2_def example_widget_def
        example_env_def double_tenth_def float64_eval)
  then show ?thesis by simp
qed

text \<open>
  The claim as stated fails twice. With both lines of the example recorded at alpha 1, the
  header font height plus the margin plus the rounded sum for one line is 46, and
  \<^verbatim>\<open>lineYAt(1)\<close> is 60: the y coordinate of the text rectangle is missing. With the second
  line at alpha 0.1 the sum over the reals is a little above 22 and its ceiling is 23,
  while the doubles round the second product to 2 and \<^verbatim>\<open>lineYAt(2)\<close> is 62, not 63.
\<close>

theorem lineYAt_layout_sum_counterexample:
  "lineYAt example_env example_widget_at2 1 = Some 60
   \<and> font_height (w_headerStyle example_widget_at2)
      + m_bottom (statisticsDetailsPopupMargins example_env)
      + \<lceil>spec_exactSum example_env example_widget_at2 1\<rceil> = 46
   \<and> lineYAt example_env example_widget_faded 2 = Some 62
   \<and> r_y (w_textRect example_widget_faded) + font_height (w_headerStyle example_widget_faded)
      + m_bottom (statisticsDetailsPopupMargins example_env)
      + \<lceil>spec_exactSum example_env example_widget_faded 2\<rceil> = 63"
proof -
  have n: "[0..<nat 1] = [0]" "[0..<nat 2] = [0, 1]" "[0..<1] = [0]" "[0..<2] = [0, 1]"
    by (simp_all add: upt_rec)
  have d: "double_of_int 20 = Finite 20"
    by (rule double_of_int_exact [of 20, simplified]) (simp add: int_range_def)
  have s1: "spec_linesHeight example_env example_widget_at2 (nat 1) = Finite 20"
    unfolding spec_linesHeight_def n
    by (simp add: spec_lineTerm_def example_widget_at2_def example_widget_def example_env_def d)
       (simp add: float64_eval)
  have s2: "spec_linesHeight example_env example_widget_faded (nat 2) = Finite 22"
    unfolding spec_linesHeight_def n
    by (simp add: spec_lineTerm_def example_widget_faded_def example_widget_at2_def
        example_widget_def example_env_def d double_tenth_def)
       (simp add: float64_eval)
  have a: "lineYAt example_env example_widget_at2 1 = Some 60"
    unfolding lineYAt_spec [of 1, simplified] s1 [simplified]
    by (simp add: spec_lineYFrom_def example_widget_at2_def example_widget_def example_env_def
        int_range_def)
  have b: "lineYAt example_env example_widget_faded 2 = Some 62"
    unfolding lineYAt_spec [of 2, simplified] s2 [simplified]
    by (simp add: spec_lineYFrom_def example_widget_faded_def example_widget_at2_def
        example_widget_def example_env_def int_range_def)
  have c: "font_height (w_headerStyle example_widget_at2)
      + m_bottom (statisticsDetailsPopupMargins example_env)
      + \<lceil>spec_exactSum example_env example_widget_at2 1\<rceil> = 46"
    unfolding spec_exactSum_def n
    by (simp add: example_widget_at2_def example_widget_def example_env_def)
  have e: "r_y (w_textRect example_widget_faded) + font_height (w_headerStyle example_widget_faded)
      + m_bottom (statisticsDetailsPopupMargins example_env)
      + \<lceil>spec_exactSum example_env example_widget_faded 2\<rceil> = 63"
    unfolding spec_exactSum_def n
    by (simp add: example_widget_faded_def example_widget_at2_def example_widget_def
        example_env_def double_tenth_def)
  from a b c e show ?thesis by simp
qed

subsection \<open>The loop of setLineAlpha\<close>

lemma setLineAlpha_loop_map:
  "setLineAlpha_loop ls lineId alpha
   = map (\<lambda>line. if line_id line = lineId then line\<lparr>line_alpha := alpha\<rparr> else line) ls"
  by (induction ls) simp_all

lemma setLineAlpha_loop_length:
  "length (setLineAlpha_loop ls lineId alpha) = length ls"
  by (simp add: setLineAlpha_loop_map)

lemma setLineAlpha_loop_absent:
  "list_all (\<lambda>line. line_id line \<noteq> lineId) ls \<Longrightarrow> setLineAlpha_loop ls lineId alpha = ls"
  by (induction ls) simp_all

subsection \<open>Unknown line ids\<close>

text \<open>
  Claim C7: for every id that is the id of no recorded line and every alpha,
  \<^verbatim>\<open>setLineAlpha(id, alpha)\<close> leaves the line list as it was: every line keeps its alpha
  and all its other fields. The call does what \<^verbatim>\<open>resizeHeight()\<close> alone does; it returns
  when the height of the untouched lines is defined.
\<close>

theorem setLineAlpha_unknown_id:
  assumes "list_all (\<lambda>line. line_id line \<noteq> lineId) (w_lines w)"
  shows "setLineAlpha env w lineId alpha = resizeHeight env w
         \<and> (\<forall>w'. setLineAlpha env w lineId alpha = Some w' \<longrightarrow> w_lines w' = w_lines w)"
proof -
  have "setLineAlpha env w lineId alpha = resizeHeight env w"
    by (simp add: setLineAlpha_def setLineAlpha_loop_absent [OF assms])
  then show ?thesis
    by (auto dest: resizeHeight_fields(1))
qed

theorem setLineAlpha_unknown_id_witness:
  "list_all (\<lambda>line. line_id line \<noteq> 7) (w_lines example_widget_faded)
   \<and> setLineAlpha example_env example_widget_faded 7 (Finite (1 / 2)) = Some example_widget_faded
   \<and> w_lines example_widget_faded \<noteq> []"
proof -
  have a: "list_all (\<lambda>line. line_id line \<noteq> 7) (w_lines example_widget_faded)"
    by (simp add: example_widget_faded_def)
  have same: "example_widget_at2
       \<lparr>w_lines := setLineAlpha_loop (w_lines example_widget_at2) 1 double_tenth\<rparr>
     = example_widget_faded
       \<lparr>w_innerRect := w_innerRect example_widget_at2,
        w_textRect := w_textRect example_widget_at2,
        w_size := w_size example_widget_at2\<rparr>"
    by (simp add: example_widget_faded_def example_widget_at2_def)
  have n: "[0..<nat 2] = [0, 1]"
    by (simp add: upt_rec)
  have d: "double_of_int 20 = Finite 20"
    by (rule double_of_int_exact [of 20, simplified]) (simp add: int_range_def)
  have s: "spec_linesHeight example_env example_widget_faded (nat 2) = Finite 22"
    unfolding spec_linesHeight_def n
    by (simp add: spec_lineTerm_def example_widget_faded_def example_widget_at2_def
        example_widget_def example_env_def d double_tenth_def)
       (simp add: float64_eval)
  have y: "lineYAt example_env example_widget_faded 2 = Some 62"
    unfolding lineYAt_spec [of 2, simplified] s [simplified]
    by (simp add: spec_lineYFrom_def example_widget_faded_def example_widget_at2_def
        example_widget_def example_env_def int_range_def)
  have n2: "int (length (chart_lines (w_chartData example_widget_faded))) = 2"
    by (simp add: example_widget_faded_def example_widget_at2_def example_widget_def
        example_chart_def)
  have r: "resizeHeight example_env example_widget_faded = Some example_widget_faded"
    unfolding resizeHeight_def n2 y
    by (simp add: resize_def example_env_def example_widget_faded_def example_widget_at2_def
        example_widget_def add_int_def int_range_def)
  from setLineAlpha_unknown_id [OF a, of example_env "Finite (1 / 2)"] r a show ?thesis
    by (simp add: example_widget_faded_def)
qed

subsection \<open>What setLineAlpha changes\<close>

text \<open>
  Claim C10: for every id and alpha, \<^verbatim>\<open>setLineAlpha(id, alpha)\<close> sets the alpha of every
  recorded line whose id is \<open>id\<close> (all of them when several lines share the id) and
  changes nothing else: the ids, names, values and colours of all lines, the alphas of the
  other lines, the header, the stored x-index and the widget width are as before. The call
  returns when the height of the lines with the new alphas is defined.
\<close>

theorem setLineAlpha_frame:
  "setLineAlpha env w lineId alpha
     = resizeHeight env
         (w\<lparr>w_lines := map (\<lambda>line. if line_id line = lineId then line\<lparr>line_alpha := alpha\<rparr>
                                   else line) (w_lines w)\<rparr>)
   \<and> (\<forall>w'. setLineAlpha env w lineId alpha = Some w' \<longrightarrow>
        w_lines w'
          = map (\<lambda>line. if line_id line = lineId then line\<lparr>line_alpha := alpha\<rparr> else line)
              (w_lines w)
        \<and> map line_alpha (w_lines w')
          = map (\<lambda>line. if line_id line = lineId then alpha else line_alpha line) (w_lines w)
        \<and> map line_id (w_lines w') = map line_id (w_lines w)
        \<and> map line_name (w_lines w') = map line_name (w_lines w)
        \<and> map line_value (w_lines w') = map line_value (w_lines w)
        \<and> map line_valueColor (w_lines w') = map line_valueColor (w_lines w)
        \<and> w_header w' = w_header w
        \<and> w_xIndex w' = w_xIndex w
        \<and> s_width (w_size w') = s_width (w_size w))"
proof -
  let ?ls = "map (\<lambda>line. if line_id line = lineId then line\<lparr>line_alpha := alpha\<rparr> else line)
               (w_lines w)"
  have eq: "setLineAlpha env w lineId alpha = resizeHeight env (w\<lparr>w_lines := ?ls\<rparr>)"
    by (simp only: setLineAlpha_def setLineAlpha_loop_map)
  have "w_lines w' = ?ls \<and> w_header w' = w_header w \<and> w_xIndex w' = w_xIndex w
        \<and> s_width (w_size w') = s_width (w_size w)"
    if "setLineAlpha env w lineId alpha = Some w'" for w'
    using resizeHeight_fields [OF that [unfolded eq]] by simp
  then show ?thesis
    unfolding eq by (auto simp: comp_def if_distrib cong: if_cong)
qed

theorem setLineAlpha_frame_witness:
  "setLineAlpha example_env example_widget_at2 1 double_tenth = Some example_widget_faded
   \<and> map line_alpha (w_lines example_widget_faded) = [Finite 1, double_tenth]
   \<and> map line_id (w_lines example_widget_faded) = map line_id (w_lines example_widget_at2)
   \<and> w_header example_widget_faded = w_header example_widget_at2"
proof -
  from setLineAlpha_frame [of example_env example_widget_at2 1 double_tenth] example_faded
  have "map line_alpha (w_lines example_widget_faded)
          = map (\<lambda>line. if line_id line = 1 then double_tenth else line_alpha line)
              (w_lines example_widget_at2)"
    and "map line_id (w_lines example_widget_faded) = map line_id (w_lines example_widget_at2)"
    and "w_header example_widget_faded = w_header example_widget_at2"
    by blast+
  then show ?thesis
    using example_faded by (simp add: example_widget_at2_def)
qed

subsection \<open>A line of alpha zero takes no height\<close>

lemma foldl_fadd_skip:
  assumes "f j = Finite 0"
  shows "is_float64 acc \<Longrightarrow>
         foldl fadd acc (map f (filter (\<lambda>i. i \<noteq> j) xs)) = foldl fadd acc (map f xs)"
proof (induction xs arbitrary: acc)
  case Nil
  then show ?case by simp
next
  case (Cons x xs)
  show ?case
  proof (cases "x = j")
    case True
    then show ?thesis
      using Cons by (simp add: assms fadd_zero_right)
  next
    case False
    then show ?thesis
      using Cons.IH [of "fadd acc (f x)"] by (simp add: is_float64_fadd)
  qed
qed

lemma spec_linesHeight_skip:
  assumes "spec_lineTerm env w j = Finite 0"
  shows "spec_linesHeightWithout env w k j = spec_linesHeight env w k"
  unfolding spec_linesHeightWithout_def spec_linesHeight_def
  by (rule foldl_fadd_skip [of "spec_lineTerm env w" j, OF assms]) (simp add: round64_def)

lemma spec_lineTerm_cong:
  assumes "w_lines w' = w_lines w" "w_textStyle w' = w_textStyle w"
  shows "spec_lineTerm env w' = spec_lineTerm env w"
  by (rule ext) (simp add: spec_lineTerm_def assms)

lemma spec_lineYFrom_cong:
  assumes "w_textRect w' = w_textRect w" "w_textStyle w' = w_textStyle w"
    "w_headerStyle w' = w_headerStyle w"
  shows "spec_lineYFrom env w' = spec_lineYFrom env w"
  by (intro ext) (simp add: spec_lineYFrom_def assms)

lemma spec_lineTerm_other:
  assumes "distinct (map line_id (w_lines w))" "j < length (w_lines w)" "i \<noteq> j"
  shows "spec_lineTerm env (w\<lparr>w_lines := setLineAlpha_loop (w_lines w) (line_id (w_lines w ! j)) alpha\<rparr>) i
         = spec_lineTerm env w i"
proof (cases "i < length (w_lines w)")
  case True
  with assms have "line_id (w_lines w ! i) \<noteq> line_id (w_lines w ! j)"
    using nth_eq_iff_index_eq [of "map line_id (w_lines w)" i j] by simp
  with True show ?thesis
    by (simp add: spec_lineTerm_def setLineAlpha_loop_map)
next
  case False
  then show ?thesis
    by (simp add: spec_lineTerm_def setLineAlpha_loop_length)
qed

text \<open>
  Claim C6: for every widget state and every recorded line (at position \<open>j\<close> of the line
  list), \<^verbatim>\<open>setLineAlpha\<close> with that line's id and alpha 0 resizes the widget to the height
  obtained from the layout sum with the term of slot \<open>j\<close> left out, plus the bottom
  margin; the call returns exactly when that height is defined. In the state it returns,
  the line has alpha 0 and the layout sum over all slots is the sum with slot \<open>j\<close> left
  out. When the recorded lines have distinct ids, that sum is also the sum over the alphas
  before the call with the term of slot \<open>j\<close> left out.
\<close>

theorem setLineAlpha_zero_height:
  assumes "j < length (w_lines w)"
  shows "map_option (\<lambda>w'. s_height (w_size w'))
           (setLineAlpha env w (line_id (w_lines w ! j)) (Finite 0))
         = (case spec_lineYFrom env w (length (chart_lines (w_chartData w)))
                   (spec_linesHeightWithout env
                      (w\<lparr>w_lines := setLineAlpha_loop (w_lines w) (line_id (w_lines w ! j)) (Finite 0)\<rparr>)
                      (length (chart_lines (w_chartData w))) j) of
              None \<Rightarrow> None
            | Some y \<Rightarrow> add_int y (m_bottom (statisticsDetailsPopupMargins env)))
   \<and> (\<forall>w'. setLineAlpha env w (line_id (w_lines w ! j)) (Finite 0) = Some w' \<longrightarrow>
          line_alpha (w_lines w' ! j) = Finite 0
          \<and> spec_linesHeight env w' (length (chart_lines (w_chartData w)))
            = spec_linesHeightWithout env w' (length (chart_lines (w_chartData w))) j
          \<and> (case spec_lineYFrom env w (length (chart_lines (w_chartData w)))
                    (spec_linesHeightWithout env w' (length (chart_lines (w_chartData w))) j) of
               None \<Rightarrow> None
             | Some y \<Rightarrow> add_int y (m_bottom (statisticsDetailsPopupMargins env)))
            = Some (s_height (w_size w')))
   \<and> (distinct (map line_id (w_lines w)) \<longrightarrow>
        spec_linesHeightWithout env
          (w\<lparr>w_lines := setLineAlpha_loop (w_lines w) (line_id (w_lines w ! j)) (Finite 0)\<rparr>)
          (length (chart_lines (w_chartData w))) j
        = spec_linesHeightWithout env w (length (chart_lines (w_chartData w))) j)"
proof -
  let ?id = "line_id (w_lines w ! j)"
  let ?n = "length (chart_lines (w_chartData w))"
  let ?h = "font_height (w_textStyle w) + statisticsDetailsPopupMidLineSpace env"
  let ?mb = "m_bottom (statisticsDetailsPopupMargins env)"
  let ?w1 = "w\<lparr>w_lines := setLineAlpha_loop (w_lines w) ?id (Finite 0)\<rparr>"
  let ?height = "\<lambda>s. case spec_lineYFrom env w ?n s of None \<Rightarrow> None | Some y \<Rightarrow> add_int y ?mb"
  have alpha_j: "line_alpha (w_lines ?w1 ! j) = Finite 0"
    using assms by (simp add: setLineAlpha_loop_map)
  have from1: "spec_lineYFrom env ?w1 = spec_lineYFrom env w"
    by (rule spec_lineYFrom_cong) simp_all
  have skip: "spec_linesHeight env ?w1 ?n = spec_linesHeightWithout env ?w1 ?n j"
    if "int_range ?h"
  proof -
    have "spec_lineTerm env ?w1 j = Finite 0"
      using assms alpha_j that
      by (simp add: spec_lineTerm_def setLineAlpha_loop_length fmul_zero_int)
    then show ?thesis
      by (rule spec_linesHeight_skip [symmetric])
  qed
  have zero: "spec_linesHeight env ?w1 0 = spec_linesHeightWithout env ?w1 0 j"
    by (simp add: spec_linesHeight_def spec_linesHeightWithout_def)
  have same: "spec_lineYFrom env w ?n (spec_linesHeight env ?w1 ?n)
              = spec_lineYFrom env w ?n (spec_linesHeightWithout env ?w1 ?n j)"
  proof (cases "0 < ?n \<longrightarrow> int_range ?h")
    case True
    then show ?thesis
      using skip zero by (cases "?n = 0") simp_all
  next
    case False
    then show ?thesis
      by (simp add: spec_lineYFrom_def)
  qed
  have line: "lineYAt env ?w1 (int ?n) = spec_lineYFrom env w ?n (spec_linesHeightWithout env ?w1 ?n j)"
    using lineYAt_spec [of "int ?n" env ?w1] by (simp add: from1 same)
  have c1: "map_option (\<lambda>w'. s_height (w_size w')) (setLineAlpha env w ?id (Finite 0))
            = ?height (spec_linesHeightWithout env ?w1 ?n j)"
    unfolding setLineAlpha_def resizeHeight_height using line by simp
  have c2: "line_alpha (w_lines w' ! j) = Finite 0
          \<and> spec_linesHeight env w' ?n = spec_linesHeightWithout env w' ?n j
          \<and> ?height (spec_linesHeightWithout env w' ?n j) = Some (s_height (w_size w'))"
    if r: "setLineAlpha env w ?id (Finite 0) = Some w'" for w'
  proof -
    from r have rh: "resizeHeight env ?w1 = Some w'"
      by (simp add: setLineAlpha_def)
    have l: "w_lines w' = w_lines ?w1" and t: "w_textStyle w' = w_textStyle ?w1"
      using resizeHeight_fields [OF rh] by simp_all
    have tm: "spec_lineTerm env w' = spec_lineTerm env ?w1"
      by (rule spec_lineTerm_cong [OF l t])
    have sums: "spec_linesHeight env w' ?n = spec_linesHeight env ?w1 ?n"
      "spec_linesHeightWithout env w' ?n j = spec_linesHeightWithout env ?w1 ?n j"
      by (simp_all add: spec_linesHeight_def spec_linesHeightWithout_def tm)
    from c1 r have h: "?height (spec_linesHeightWithout env ?w1 ?n j) = Some (s_height (w_size w'))"
      by simp
    have rng: "0 < ?n \<longrightarrow> int_range ?h"
      using h by (auto simp: spec_lineYFrom_def Let_def split: if_splits option.splits)
    have "spec_linesHeight env ?w1 ?n = spec_linesHeightWithout env ?w1 ?n j"
      using rng skip zero by (cases "?n = 0") simp_all
    then show ?thesis
      using alpha_j h by (simp add: l sums)
  qed
  have c3: "spec_linesHeightWithout env ?w1 ?n j = spec_linesHeightWithout env w ?n j"
    if d: "distinct (map line_id (w_lines w))"
  proof -
    have m: "map (spec_lineTerm env ?w1) (filter (\<lambda>i. i \<noteq> j) [0..<?n])
          = map (spec_lineTerm env w) (filter (\<lambda>i. i \<noteq> j) [0..<?n])"
      by (rule map_cong [OF refl]) (simp add: spec_lineTerm_other [OF d assms])
    show ?thesis
      unfolding spec_linesHeightWithout_def m ..
  qed
  from c1 c2 c3 show ?thesis by blast
qed

theorem setLineAlpha_zero_height_witness:
  "(1::nat) < length (w_lines example_widget_faded)
   \<and> distinct (map line_id (w_lines example_widget_faded))
   \<and> line_id (w_lines example_widget_faded ! 1) = 1
   \<and> s_height (w_size example_widget_faded) = 70
   \<and> spec_linesHeightWithout example_env example_widget_faded
        (length (chart_lines (w_chartData example_widget_faded))) 1 = Finite 20
   \<and> map_option (\<lambda>w'. s_height (w_size w'))
        (setLineAlpha example_env example_widget_faded 1 (Finite 0)) = Some 68"
proof -
  have j: "(1::nat) < length (w_lines example_widget_faded)"
    by (simp add: example_widget_faded_def)
  have i: "line_id (w_lines example_widget_faded ! 1) = 1"
    by (simp add: example_widget_faded_def)
  have d: "distinct (map line_id (w_lines example_widget_faded))"
    by (simp add: example_widget_faded_def)
  have h: "s_height (w_size example_widget_faded) = 70"
    by (simp add: example_widget_faded_def)
  have n: "length (chart_lines (w_chartData example_widget_faded)) = 2"
    by (simp add: example_widget_faded_def example_widget_at2_def example_widget_def
        example_chart_def)
  have u: "[0..<2] = [0, 1]"
    by (simp add: upt_rec)
  have d20: "double_of_int 20 = Finite 20"
    by (rule double_of_int_exact [of 20, simplified]) (simp add: int_range_def)
  have s: "spec_linesHeightWithout example_env example_widget_faded 2 1 = Finite 20"
    unfolding spec_linesHeightWithout_def u
    by (simp add: spec_lineTerm_def example_widget_faded_def example_widget_at2_def
        example_widget_def example_env_def d20)
       (simp add: float64_eval)
  from setLineAlpha_zero_height [OF j, of example_env] d
  have "map_option (\<lambda>w'. s_height (w_size w'))
          (setLineAlpha example_env example_widget_faded 1 (Finite 0))
        = (case spec_lineYFrom example_env example_widget_faded 2
                  (spec_linesHeightWithout example_env example_widget_faded 2 1) of
             None \<Rightarrow> None
           | Some y \<Rightarrow> add_int y (m_bottom (statisticsDetailsPopupMargins example_env)))"
    unfolding i n by simp
  also have "\<dots> = Some 68"
    unfolding s
    by (simp add: spec_lineYFrom_def example_widget_faded_def example_widget_at2_def
        example_widget_def example_env_def int_range_def add_int_def)
  finally show ?thesis
    using j i d h s n by simp
qed

end
